theory Spec2Isabelle
  imports Complex_Main "HOL-Library.Log_Nat"
begin

section \<open>Numeric arrays\<close>

text \<open>
  The module \<^verbatim>\<open>helper_edit.py\<close> computes with one-dimensional numpy arrays of floats
  and one two-dimensional array with six columns. A one-dimensional array is a
  \<open>real list\<close>, the matrix a list of rows. Every place where numpy or Python raises is a
  branch returning \<open>Inl\<close>; the one place where numpy silently yields infinities or NaN
  (division by a zero scalar) is the outcome \<open>NonFinite\<close>.

  A float is a real number. The functions below compute in exact arithmetic, which is
  what the claims about the structure of the computation need. The loop of
  \<^verbatim>\<open>get_aPercentSources\<close> is modelled a second time with the rounding of every
  arithmetic result written out (section Double precision), for the claims that
  depend on the rounding. Infinities and NaN are outside both models.
\<close>

datatype py_error = IndexError | ValueError | NonFinite

definition bind_res :: "py_error + 'a \<Rightarrow> ('a \<Rightarrow> py_error + 'b) \<Rightarrow> py_error + 'b" where
  "bind_res r f = (case r of Inl e \<Rightarrow> Inl e | Inr v \<Rightarrow> f v)"

text \<open>\<^verbatim>\<open>for i in range(n): body\<close>, stopping at the first exception.\<close>

fun for_range :: "nat list \<Rightarrow> (nat \<Rightarrow> 's \<Rightarrow> py_error + 's) \<Rightarrow> 's \<Rightarrow> py_error + 's" where
  "for_range [] body s = Inr s"
| "for_range (i # is) body s = bind_res (body i s) (for_range is body)"

text \<open>\<^verbatim>\<open>a * c\<close> for an array and a scalar.\<close>

definition np_scale :: "real list \<Rightarrow> real \<Rightarrow> real list" where
  "np_scale xs c = map (\<lambda>x. x * c) xs"

text \<open>
  \<^verbatim>\<open>a + b\<close> for two one-dimensional arrays: elementwise on equal lengths, a
  one-element array is broadcast, any other pair of shapes raises ValueError.
\<close>

definition np_add :: "real list \<Rightarrow> real list \<Rightarrow> py_error + real list" where
  "np_add xs ys =
     (if length xs = length ys then Inr (map2 (+) xs ys)
      else if length xs = 1 then Inr (map (\<lambda>y. xs ! 0 + y) ys)
      else if length ys = 1 then Inr (map (\<lambda>x. x + ys ! 0) xs)
      else Inl ValueError)"

text \<open>\<^verbatim>\<open>np.dot(a, b)\<close> for two one-dimensional arrays.\<close>

definition np_dot :: "real list \<Rightarrow> real list \<Rightarrow> py_error + real" where
  "np_dot a b = (if length a = length b then Inr (sum_list (map2 (*) a b)) else Inl ValueError)"

text \<open>\<^verbatim>\<open>if P[k] < 0: P[k] = 0\<close>; reading past the end raises IndexError.\<close>

definition clamp_neg :: "nat \<Rightarrow> real list \<Rightarrow> py_error + real list" where
  "clamp_neg k P =
     (if length P \<le> k then Inl IndexError
      else if P ! k < 0 then Inr (P[k := 0])
      else Inr P)"

text \<open>
  \<^verbatim>\<open>A[i,:] = v\<close> for a matrix with six columns: \<open>v\<close> has six elements, or one that
  is broadcast; any other shape raises ValueError.
\<close>

definition set_row :: "nat \<Rightarrow> real list \<Rightarrow> real list list \<Rightarrow> py_error + real list list" where
  "set_row i v A =
     (if length A \<le> i then Inl IndexError
      else if length v = 6 then Inr (A[i := v])
      else if length v = 1 then Inr (A[i := replicate 6 (v ! 0)])
      else Inl ValueError)"

text \<open>\<^verbatim>\<open>A[i,j] = x\<close>.\<close>

definition set_item :: "nat \<Rightarrow> nat \<Rightarrow> real \<Rightarrow> real list list \<Rightarrow> py_error + real list list" where
  "set_item i j x A =
     (if length A \<le> i \<or> length (A ! i) \<le> j then Inl IndexError
      else Inr (A[i := (A ! i)[j := x]]))"

section \<open>Module-level defaults\<close>

definition initial_percentages :: "real list" where
  "initial_percentages = [19.3, 53.6, 0.9, 17.5, 8.7, 0]"

definition derivative_sources :: "real list" where
  "derivative_sources = [-1.89, 0, 0.0976, 1.29, -0.116, 0]"

definition aRelScores :: "real list" where
  "aRelScores = [-9192.435233, -5811.753731, 26687.77778, -5368.914286, -8413.448276, 0]"

section \<open>Energy projection\<close>

definition get_aEnergy :: "real list \<Rightarrow> real \<Rightarrow> real list" where
  "get_aEnergy aYear dirE = map (\<lambda>y. dirE * y - 1.35 * 10 ^ 10) aYear"

section \<open>Source-mix trajectory\<close>

text \<open>
  One pass of the loop body of \<^verbatim>\<open>get_aPercentSources\<close> at index \<open>i\<close> and year \<open>t\<close>:
  the candidate row \<open>P\<close>, the five clamps (index 1 is skipped), the slack \<open>NG\<close>, and the
  write into row \<open>i\<close> of the matrix.
\<close>

definition percent_row ::
  "real list list \<Rightarrow> nat \<Rightarrow> real \<Rightarrow> real list \<Rightarrow> real list \<Rightarrow> real list \<Rightarrow> py_error + real list list" where
  "percent_row A i t init der sec =
     bind_res (np_add (np_scale sec (0.5 * (t - 2021) ^ 2)) (np_scale der (t - 2021))) (\<lambda>S.
     bind_res (np_add S init) (\<lambda>P.
     bind_res (clamp_neg 0 P) (\<lambda>P.
     bind_res (clamp_neg 2 P) (\<lambda>P.
     bind_res (clamp_neg 3 P) (\<lambda>P.
     bind_res (clamp_neg 4 P) (\<lambda>P.
     bind_res (clamp_neg 5 P) (\<lambda>P.
       let NG = 100 - (P ! 0 + P ! 2 + P ! 3 + P ! 4 + P ! 5) in
       if NG \<ge> 0 then bind_res (set_row i P A) (set_item i 1 NG)
       else if i > 0 then set_row i (A ! (i - 1)) A
       else set_row i init A)))))))"

definition get_aPercentSources ::
  "real list \<Rightarrow> real list \<Rightarrow> real list \<Rightarrow> real list \<Rightarrow> py_error + real list list" where
  "get_aPercentSources aYear init der sec =
     for_range [0..<length aYear]
       (\<lambda>i A. percent_row A i (aYear ! i) init der sec)
       (replicate (length aYear) (replicate 6 0))"

section \<open>Reliability projection\<close>

text \<open>
  \<^verbatim>\<open>get_aReliability\<close> writes into the coefficient array it is given before it reads
  it, so the model returns the array as the call leaves it next to the result. The write
  happens only when both index expressions of line 112 succeed. A zero \<open>Energy_2021\<close>
  makes every entry of the result infinite or NaN, unless the loop raises first.
\<close>

definition reliability_item ::
  "real list \<Rightarrow> real list \<Rightarrow> real list list \<Rightarrow> nat \<Rightarrow> real list \<Rightarrow> py_error + real list" where
  "reliability_item u rel A i aReliability =
     (if length u \<le> i \<or> length A \<le> i then Inl IndexError
      else bind_res (np_dot rel (A ! i)) (\<lambda>d. Inr (aReliability[i := u ! i * d])))"

definition get_aReliability ::
  "real list \<Rightarrow> real list list \<Rightarrow> real list \<Rightarrow> real \<Rightarrow> real \<Rightarrow> real list
     \<Rightarrow> (py_error + real list) \<times> real list" where
  "get_aReliability aYear A aEnergy perc_effective dirE rel =
     (let aReliability = replicate (length aYear) (0::real);
          Energy_2021 = dirE * 2021 - 1.35 * 10 ^ 10
      in if length aReliability \<le> 1 \<or> length rel \<le> 5 then (Inl IndexError, rel)
         else
           let rel' = rel[5 := (1 - perc_effective / 100) * aReliability ! 1];
               u = map (\<lambda>e. e / Energy_2021) aEnergy
           in (bind_res
                 (for_range [0..<length aYear] (reliability_item u rel' A) aReliability)
                 (\<lambda>r. if Energy_2021 = 0 then Inl NonFinite else Inr r),
               rel'))"

text \<open>
  The default of the parameter \<^verbatim>\<open>aRelScores\<close> is the module-level array itself, one
  object shared by every call that does not override it. The module state holds it.
\<close>

record module_state =
  g_aRelScores :: "real list"

definition get_aReliability_default ::
  "real list \<Rightarrow> real list list \<Rightarrow> real list \<Rightarrow> module_state
     \<Rightarrow> (py_error + real list) \<times> module_state" where
  "get_aReliability_default aYear A aEnergy s =
     (let (r, rel') = get_aReliability aYear A aEnergy 83.5 (6.92 * 10 ^ 6) (g_aRelScores s)
      in (r, s\<lparr>g_aRelScores := rel'\<rparr>))"

section \<open>Aggregator\<close>

text \<open>\<^verbatim>\<open>aYear[-1]\<close> and \<^verbatim>\<open>aYear[0]\<close> raise IndexError on an empty grid.\<close>

definition get_totalEmissions :: "real list \<Rightarrow> real list \<Rightarrow> py_error + real" where
  "get_totalEmissions aYear aEmissions =
     (if aYear = [] then Inl IndexError
      else
        let delta_t = last aYear - hd aYear;
            n = length aYear
        in Inr (sum_list aEmissions * (delta_t / real n)))"

section \<open>The trajectory rule in the specification's words\<close>

text \<open>
  The specification describes one sample of the trajectory in closed form: the trend
  polynomial anchored at the year 2021, the clamp of every channel but NaturalGas, the
  NaturalGas slack, and the accepted row. These definitions follow its words; the
  theorems below compare them with the loop of \<^verbatim>\<open>get_aPercentSources\<close>.
\<close>

definition clip :: "real \<Rightarrow> real" where
  "clip x = (if x < 0 then 0 else x)"

definition spec_candidate :: "real \<Rightarrow> real list \<Rightarrow> real list \<Rightarrow> real list \<Rightarrow> real list" where
  "spec_candidate t init der sec =
     map (\<lambda>c. sec ! c * 0.5 * (t - 2021) ^ 2 + der ! c * (t - 2021) + init ! c) [0..<6]"

definition spec_clamp :: "real list \<Rightarrow> real list" where
  "spec_clamp P = map (\<lambda>c. if c \<noteq> 1 then clip (P ! c) else P ! c) [0..<6]"

definition spec_slack :: "real list \<Rightarrow> real" where
  "spec_slack P = 100 - (P ! 0 + P ! 2 + P ! 3 + P ! 4 + P ! 5)"

definition spec_repaired :: "real \<Rightarrow> real list \<Rightarrow> real list \<Rightarrow> real list \<Rightarrow> real list" where
  "spec_repaired t init der sec = spec_clamp (spec_candidate t init der sec)"

definition spec_feasible :: "real \<Rightarrow> real list \<Rightarrow> real list \<Rightarrow> real list \<Rightarrow> bool" where
  "spec_feasible t init der sec \<longleftrightarrow> 0 \<le> spec_slack (spec_repaired t init der sec)"

definition spec_accepted :: "real \<Rightarrow> real list \<Rightarrow> real list \<Rightarrow> real list \<Rightarrow> real list" where
  "spec_accepted t init der sec =
     (spec_repaired t init der sec)[1 := spec_slack (spec_repaired t init der sec)]"

text \<open>Row \<open>i\<close> of a matrix \<open>T\<close> obeys the accept-or-freeze rule.\<close>

definition row_rule ::
  "real list \<Rightarrow> real list \<Rightarrow> real list \<Rightarrow> real list \<Rightarrow> real list list \<Rightarrow> nat \<Rightarrow> bool" where
  "row_rule aYear init der sec T i \<longleftrightarrow>
     T ! i = (if spec_feasible (aYear ! i) init der sec then spec_accepted (aYear ! i) init der sec
              else if 0 < i then T ! (i - 1) else init)"

section \<open>Double precision\<close>

text \<open>
  Python floats and numpy's \<^verbatim>\<open>float64\<close> are IEEE 754 binary64 numbers, and every
  arithmetic operation returns the exact result rounded to the nearest such number, ties
  to the one with an even significand. \<open>round_f64\<close> is that rounding on the reals: a
  nonzero \<open>x\<close> with \<open>2 ^ e \<le> \<bar>x\<bar> < 2 ^ (e + 1)\<close> is rounded to a multiple of
  \<open>2 ^ (e - 52)\<close>, and of \<open>2 ^ - 1074\<close> in the subnormal range. Overflow to infinity is not
  modelled: the model is the code as long as no intermediate result reaches \<open>2 ^ 1024\<close>.
\<close>

text \<open>The integer nearest to \<open>y\<close>, the even one on a tie; \<open>f\<close> is the floor of \<open>y\<close>.\<close>

definition round_even_from :: "real \<Rightarrow> int \<Rightarrow> int" where
  "round_even_from y f =
     (if y - of_int f < 1 / 2 then f
      else if 1 / 2 < y - of_int f then f + 1
      else if even f then f else f + 1)"

definition round_even :: "real \<Rightarrow> int" where
  "round_even y = round_even_from y \<lfloor>y\<rfloor>"

text \<open>
  The binary exponent of a positive \<open>x\<close>: the integer \<open>e\<close> with \<open>2 ^ e \<le> x < 2 ^ (e + 1)\<close>
  (lemmas \<open>ilog2_lower\<close>, \<open>ilog2_upper\<close>), from the bit length of an integer.
\<close>

definition ilog2 :: "real \<Rightarrow> int" where
  "ilog2 x = (if 1 \<le> x then bitlen \<lfloor>x\<rfloor> - 1 else - bitlen (\<lceil>1 / x\<rceil> - 1))"

text \<open>The multiple of \<open>q\<close> nearest to \<open>x\<close>.\<close>

definition round_to :: "real \<Rightarrow> real \<Rightarrow> real" where
  "round_to q x = of_int (round_even (x / q)) * q"

definition round_f64 :: "real \<Rightarrow> real" where
  "round_f64 x =
     (if x = 0 then 0 else round_to (2 powi (max (ilog2 \<bar>x\<bar>) (- 1022) - 52)) x)"

text \<open>
  The loop body of \<^verbatim>\<open>get_aPercentSources\<close> with the rounding \<open>rnd\<close> of every
  arithmetic result: the subtraction \<^verbatim>\<open>aYear[i]-2021\<close>, the square, the product with
  0.5, the two scalings, the two array additions of line 71, and the four additions and
  the subtraction of line 87. With \<open>round_f64\<close> it is the computation in doubles; with
  the identity it is \<open>percent_row\<close>. (The square is taken as correctly rounded; no
  theorem below depends on it.)
\<close>

definition np_scale_fl :: "(real \<Rightarrow> real) \<Rightarrow> real list \<Rightarrow> real \<Rightarrow> real list" where
  "np_scale_fl rnd xs c = map (\<lambda>x. rnd (x * c)) xs"

definition np_add_fl :: "(real \<Rightarrow> real) \<Rightarrow> real list \<Rightarrow> real list \<Rightarrow> py_error + real list" where
  "np_add_fl rnd xs ys =
     (if length xs = length ys then Inr (map2 (\<lambda>x y. rnd (x + y)) xs ys)
      else if length xs = 1 then Inr (map (\<lambda>y. rnd (xs ! 0 + y)) ys)
      else if length ys = 1 then Inr (map (\<lambda>x. rnd (x + ys ! 0)) xs)
      else Inl ValueError)"

definition percent_row_fl ::
  "(real \<Rightarrow> real) \<Rightarrow> real list list \<Rightarrow> nat \<Rightarrow> real \<Rightarrow> real list \<Rightarrow> real list \<Rightarrow> real list
     \<Rightarrow> py_error + real list list" where
  "percent_row_fl rnd A i t init der sec =
     bind_res (np_add_fl rnd (np_scale_fl rnd sec (rnd (0.5 * rnd (rnd (t - 2021) ^ 2))))
                             (np_scale_fl rnd der (rnd (t - 2021)))) (\<lambda>S.
     bind_res (np_add_fl rnd S init) (\<lambda>P.
     bind_res (clamp_neg 0 P) (\<lambda>P.
     bind_res (clamp_neg 2 P) (\<lambda>P.
     bind_res (clamp_neg 3 P) (\<lambda>P.
     bind_res (clamp_neg 4 P) (\<lambda>P.
     bind_res (clamp_neg 5 P) (\<lambda>P.
       let NG = rnd (100 - rnd (rnd (rnd (rnd (P ! 0 + P ! 2) + P ! 3) + P ! 4) + P ! 5)) in
       if NG \<ge> 0 then bind_res (set_row i P A) (set_item i 1 NG)
       else if i > 0 then set_row i (A ! (i - 1)) A
       else set_row i init A)))))))"

definition get_aPercentSources_fl ::
  "(real \<Rightarrow> real) \<Rightarrow> real list \<Rightarrow> real list \<Rightarrow> real list \<Rightarrow> real list
     \<Rightarrow> py_error + real list list" where
  "get_aPercentSources_fl rnd aYear init der sec =
     for_range [0..<length aYear]
       (\<lambda>i A. percent_row_fl rnd A i (aYear ! i) init der sec)
       (replicate (length aYear) (replicate 6 0))"

text \<open>
  The values the loop body computes, one by one: the candidate row, the slack of a
  clamped row, and the accepted row (the clamped candidate with the slack in channel 1).
\<close>

definition fl_candidate ::
  "(real \<Rightarrow> real) \<Rightarrow> real \<Rightarrow> real list \<Rightarrow> real list \<Rightarrow> real list \<Rightarrow> real list" where
  "fl_candidate rnd t init der sec =
     map (\<lambda>c. rnd (rnd (rnd (sec ! c * rnd (0.5 * rnd (rnd (t - 2021) ^ 2)))
                          + rnd (der ! c * rnd (t - 2021))) + init ! c)) [0..<6]"

definition fl_slack :: "(real \<Rightarrow> real) \<Rightarrow> real list \<Rightarrow> real" where
  "fl_slack rnd P = rnd (100 - rnd (rnd (rnd (rnd (P ! 0 + P ! 2) + P ! 3) + P ! 4) + P ! 5))"

definition fl_row :: "(real \<Rightarrow> real) \<Rightarrow> real list \<Rightarrow> real list" where
  "fl_row rnd P = (spec_clamp P)[1 := fl_slack rnd (spec_clamp P)]"

section \<open>Auxiliary facts\<close>

lemma bind_res_Inr [simp]: "bind_res (Inr v) f = f v"
  by (simp add: bind_res_def)

lemma bind_res_Inl [simp]: "bind_res (Inl e) f = Inl e"
  by (simp add: bind_res_def)

lemma for_range_append:
  "for_range (xs @ ys) body s = bind_res (for_range xs body s) (for_range ys body)"
  by (induction xs arbitrary: s) (auto simp: bind_res_def split: sum.splits)

lemma for_range_upt_Suc:
  "for_range [0..<Suc k] body s = bind_res (for_range [0..<k] body s) (body k)"
  by (simp add: for_range_append bind_res_def split: sum.splits)

lemma upt_6: "[0..<6] = [0, 1, 2, 3, 4, 5::nat]"
  by code_simp

lemma length_6_cases:
  assumes "length xs = 6"
  obtains a b c d e f where "xs = [a, b, c, d, e, f]"
proof -
  from assms obtain a xs1 where 1: "xs = a # xs1" "length xs1 = 5" by (cases xs) auto
  from 1 obtain b xs2 where 2: "xs1 = b # xs2" "length xs2 = 4" by (cases xs1) auto
  from 2 obtain c xs3 where 3: "xs2 = c # xs3" "length xs3 = 3" by (cases xs2) auto
  from 3 obtain d xs4 where 4: "xs3 = d # xs4" "length xs4 = 2" by (cases xs3) auto
  from 4 obtain e xs5 where 5: "xs4 = e # xs5" "length xs5 = 1" by (cases xs4) auto
  from 5 obtain f where 6: "xs5 = [f]" by (cases xs5) auto
  show ?thesis using that 1 2 3 4 5 6 by simp
qed

subsection \<open>One pass of the loop body on six-element vectors\<close>

lemma clamp_neg_0: "clamp_neg 0 (p # ps) = Inr (clip p # ps)"
  by (simp add: clamp_neg_def clip_def)

lemma clamp_neg_Suc:
  "clamp_neg (Suc k) (p # ps) = (case clamp_neg k ps of Inl e \<Rightarrow> Inl e | Inr qs \<Rightarrow> Inr (p # qs))"
  by (simp add: clamp_neg_def)

lemma clamp_chain:
  "bind_res (clamp_neg 0 [p0, p1, p2, p3, p4, p5]) (\<lambda>P.
   bind_res (clamp_neg 2 P) (\<lambda>P.
   bind_res (clamp_neg 3 P) (\<lambda>P.
   bind_res (clamp_neg 4 P) (\<lambda>P.
   bind_res (clamp_neg 5 P) f)))) = f [clip p0, p1, clip p2, clip p3, clip p4, clip p5]"
  by (simp add: clamp_neg_0 clamp_neg_Suc eval_nat_numeral)

lemma spec_clamp_6:
  "spec_clamp [p0, p1, p2, p3, p4, p5] = [clip p0, p1, clip p2, clip p3, clip p4, clip p5]"
  by (simp add: spec_clamp_def upt_6)

lemma candidate_6:
  "bind_res (np_add (np_scale [s0, s1, s2, s3, s4, s5] a) (np_scale [d0, d1, d2, d3, d4, d5] b)) (\<lambda>S.
     bind_res (np_add S [a0, a1, a2, a3, a4, a5]) f)
   = f [s0 * a + d0 * b + a0, s1 * a + d1 * b + a1, s2 * a + d2 * b + a2,
        s3 * a + d3 * b + a3, s4 * a + d4 * b + a4, s5 * a + d5 * b + a5]"
  by (simp add: np_add_def np_scale_def)

lemma spec_candidate_6:
  "spec_candidate t [a0, a1, a2, a3, a4, a5] [d0, d1, d2, d3, d4, d5] [s0, s1, s2, s3, s4, s5] =
     [s0 * 0.5 * (t - 2021) ^ 2 + d0 * (t - 2021) + a0, s1 * 0.5 * (t - 2021) ^ 2 + d1 * (t - 2021) + a1,
      s2 * 0.5 * (t - 2021) ^ 2 + d2 * (t - 2021) + a2, s3 * 0.5 * (t - 2021) ^ 2 + d3 * (t - 2021) + a3,
      s4 * 0.5 * (t - 2021) ^ 2 + d4 * (t - 2021) + a4, s5 * 0.5 * (t - 2021) ^ 2 + d5 * (t - 2021) + a5]"
  by (simp add: spec_candidate_def upt_6)

lemma spec_repaired_6:
  "spec_repaired t [a0, a1, a2, a3, a4, a5] [d0, d1, d2, d3, d4, d5] [s0, s1, s2, s3, s4, s5] =
     [clip (s0 * 0.5 * (t - 2021) ^ 2 + d0 * (t - 2021) + a0),
      s1 * 0.5 * (t - 2021) ^ 2 + d1 * (t - 2021) + a1,
      clip (s2 * 0.5 * (t - 2021) ^ 2 + d2 * (t - 2021) + a2),
      clip (s3 * 0.5 * (t - 2021) ^ 2 + d3 * (t - 2021) + a3),
      clip (s4 * 0.5 * (t - 2021) ^ 2 + d4 * (t - 2021) + a4),
      clip (s5 * 0.5 * (t - 2021) ^ 2 + d5 * (t - 2021) + a5)]"
  unfolding spec_repaired_def spec_candidate_6 spec_clamp_6 ..

lemma length_spec_repaired [simp]: "length (spec_repaired t init der sec) = 6"
  by (simp add: spec_repaired_def spec_clamp_def)

lemma length_spec_accepted [simp]: "length (spec_accepted t init der sec) = 6"
  by (simp add: spec_accepted_def)

lemma percent_row_vec6:
  assumes "length init = 6" "length der = 6" "length sec = 6" "i < length A"
    and "0 < i \<Longrightarrow> length (A ! (i - 1)) = 6"
  shows "percent_row A i t init der sec =
     Inr (A[i := (if spec_feasible t init der sec then spec_accepted t init der sec
                  else if 0 < i then A ! (i - 1) else init)])"
proof -
  obtain a0 a1 a2 a3 a4 a5 where i: "init = [a0, a1, a2, a3, a4, a5]"
    using assms(1) by (rule length_6_cases)
  obtain d0 d1 d2 d3 d4 d5 where d: "der = [d0, d1, d2, d3, d4, d5]"
    using assms(2) by (rule length_6_cases)
  obtain s0 s1 s2 s3 s4 s5 where s: "sec = [s0, s1, s2, s3, s4, s5]"
    using assms(3) by (rule length_6_cases)
  have row: "percent_row A i t init der sec =
     (let P = spec_repaired t init der sec; NG = 100 - (P ! 0 + P ! 2 + P ! 3 + P ! 4 + P ! 5) in
       if NG \<ge> 0 then bind_res (set_row i P A) (set_item i 1 NG)
       else if i > 0 then set_row i (A ! (i - 1)) A
       else set_row i init A)"
    unfolding percent_row_def i d s spec_repaired_6 candidate_6 clamp_chain
    by (simp add: algebra_simps)
  show ?thesis
    unfolding row using assms(1,4,5)
    by (auto simp add: Let_def spec_slack_def spec_feasible_def spec_accepted_def
        set_row_def set_item_def)
qed

subsection \<open>The loop of \<^verbatim>\<open>get_aPercentSources\<close>\<close>

lemma percent_loop_prefix:
  assumes "length init = 6" "length der = 6" "length sec = 6" "k \<le> length aYear"
  shows "\<exists>A. for_range [0..<k] (\<lambda>i A. percent_row A i (aYear ! i) init der sec)
                (replicate (length aYear) (replicate 6 0)) = Inr A
            \<and> length A = length aYear
            \<and> (\<forall>i < length aYear. length (A ! i) = 6)
            \<and> (\<forall>i < k. row_rule aYear init der sec A i)"
  using assms(4)
proof (induction k)
  case 0
  then show ?case by simp
next
  case (Suc k)
  then obtain A where A: "for_range [0..<k] (\<lambda>i A. percent_row A i (aYear ! i) init der sec)
                (replicate (length aYear) (replicate 6 0)) = Inr A"
     "length A = length aYear" "\<forall>i < length aYear. length (A ! i) = 6"
     "\<forall>i < k. row_rule aYear init der sec A i"
    by auto
  define r where "r = (if spec_feasible (aYear ! k) init der sec
              then spec_accepted (aYear ! k) init der sec
              else if 0 < k then A ! (k - 1) else init)"
  have k: "k < length A" using Suc.prems A(2) by simp
  have prev: "0 < k \<Longrightarrow> length (A ! (k - 1)) = 6" using A(3) k A(2) by simp
  have step: "percent_row A k (aYear ! k) init der sec = Inr (A[k := r])"
    using percent_row_vec6 [OF assms(1-3) k prev] by (simp add: r_def)
  have run: "for_range [0..<Suc k] (\<lambda>i A. percent_row A i (aYear ! i) init der sec)
                (replicate (length aYear) (replicate 6 0)) = Inr (A[k := r])"
    unfolding for_range_upt_Suc A(1) by (simp add: step)
  have lenr: "length r = 6" using assms(1) prev by (simp add: r_def)
  have rows: "\<forall>i < length aYear. length (A[k := r] ! i) = 6"
    using A(2,3) lenr k by (auto simp add: nth_list_update)
  have rule: "row_rule aYear init der sec (A[k := r]) i" if "i < Suc k" for i
  proof (cases "i = k")
    case True
    then show ?thesis using k by (simp add: row_rule_def r_def)
  next
    case False
    with that have "i < k" by simp
    with A(4) have "row_rule aYear init der sec A i" by simp
    with \<open>i < k\<close> show ?thesis by (simp add: row_rule_def)
  qed
  show ?case using run A(2) rows rule by auto
qed

lemma get_aPercentSources_rows:
  assumes "length init = 6" "length der = 6" "length sec = 6"
  shows "\<exists>T. get_aPercentSources aYear init der sec = Inr T \<and> length T = length aYear \<and>
           (\<forall>i < length aYear. length (T ! i) = 6 \<and> row_rule aYear init der sec T i)"
  using percent_loop_prefix [OF assms, of "length aYear" aYear]
  unfolding get_aPercentSources_def by auto

section \<open>The aggregator's formula\<close>

text \<open>
  Claim C7. On a non-empty time grid \<^verbatim>\<open>get_totalEmissions\<close> returns the sum of the
  series times (last year minus first year) divided by the number of samples of the grid,
  whatever the length of the series.
\<close>

theorem get_totalEmissions_formula:
  assumes "aYear \<noteq> []"
  shows "get_totalEmissions aYear series =
           Inr (sum_list series * (aYear ! (length aYear - 1) - aYear ! 0) / real (length aYear))"
  using assms by (simp add: get_totalEmissions_def last_conv_nth hd_conv_nth)

theorem get_totalEmissions_formula_witness:
  "get_totalEmissions [0, 1, 2] [1, 0, 0] = Inr (2 / 3)"
  using get_totalEmissions_formula [of "[0, 1, 2]" "[1, 0, 0]"] by simp

section \<open>Accepted rows\<close>

lemma spec_repaired_nth:
  assumes "c < 6" "c \<noteq> 1"
  shows "spec_repaired t init der sec ! c =
           clip (sec ! c * 0.5 * (t - 2021) ^ 2 + der ! c * (t - 2021) + init ! c)"
  using assms by (simp add: spec_repaired_def spec_clamp_def spec_candidate_def)

lemma clip_nonneg: "0 \<le> clip x"
  by (simp add: clip_def)

section \<open>The row rule\<close>



section \<open>Freezing\<close>




section \<open>Small facts on lists and clamps\<close>

lemma replicate_6: "replicate 6 x = [x, x, x, x, x, x]"
  by (simp add: eval_nat_numeral)

lemma clip_id: "0 \<le> x \<Longrightarrow> clip x = x"
  by (simp add: clip_def)

section \<open>The unused derivative slot\<close>

lemma row_rule_unique:
  assumes "length T = n" "length T' = n"
    and "\<And>i. i < n \<Longrightarrow> row_rule aYear init der sec T i"
    and "\<And>i. i < n \<Longrightarrow> row_rule aYear init der' sec T' i"
    and "\<And>t. spec_feasible t init der' sec = spec_feasible t init der sec"
    and "\<And>t. spec_accepted t init der' sec = spec_accepted t init der sec"
  shows "T = T'"
proof (rule nth_equalityI)
  show "length T = length T'" using assms(1,2) by simp
next
  fix i assume "i < length T"
  then have "i < n" using assms(1) by simp
  then show "T ! i = T' ! i"
  proof (induction i)
    case 0
    with assms(3) [of 0] assms(4) [of 0] show ?case
      by (simp add: row_rule_def assms(5,6))
  next
    case (Suc i)
    then have "T ! i = T' ! i" by simp
    with assms(3) [of "Suc i"] assms(4) [of "Suc i"] Suc.prems show ?case
      by (simp add: row_rule_def assms(5,6))
  qed
qed

lemma spec_accepted_der_1:
  assumes "length init = 6" "length der = 6" "length sec = 6"
  shows "spec_feasible t init (der[1 := x]) sec = spec_feasible t init der sec"
    and "spec_accepted t init (der[1 := x]) sec = spec_accepted t init der sec"
proof -
  obtain a0 a1 a2 a3 a4 a5 where i: "init = [a0, a1, a2, a3, a4, a5]"
    using assms(1) by (rule length_6_cases)
  obtain d0 d1 d2 d3 d4 d5 where d: "der = [d0, d1, d2, d3, d4, d5]"
    using assms(2) by (rule length_6_cases)
  obtain s0 s1 s2 s3 s4 s5 where s: "sec = [s0, s1, s2, s3, s4, s5]"
    using assms(3) by (rule length_6_cases)
  have u: "der[1 := x] = [d0, x, d2, d3, d4, d5]" by (simp add: d)
  show "spec_feasible t init (der[1 := x]) sec = spec_feasible t init der sec"
    unfolding spec_feasible_def u unfolding i d s spec_repaired_6
    by (simp add: spec_slack_def)
  show "spec_accepted t init (der[1 := x]) sec = spec_accepted t init der sec"
    unfolding spec_accepted_def u unfolding i d s spec_repaired_6
    by (simp add: spec_slack_def)
qed

text \<open>
  Claim C9. Entry 1 (NaturalGas) of the first-derivative vector has no influence: two
  calls that differ only in that entry return the same trajectory.
\<close>

theorem get_aPercentSources_ignores_NG_derivative:
  assumes "length init = 6" "length der = 6" "length sec = 6"
  shows "get_aPercentSources aYear init (der[1 := x]) sec =
         get_aPercentSources aYear init (der[1 := y]) sec"
proof -
  have lx: "length (der[1 := x]) = 6" and ly: "length (der[1 := y]) = 6"
    using assms(2) by simp_all
  obtain T where T: "get_aPercentSources aYear init (der[1 := x]) sec = Inr T"
    "length T = length aYear"
    "\<forall>i < length aYear. length (T ! i) = 6 \<and> row_rule aYear init (der[1 := x]) sec T i"
    using get_aPercentSources_rows [OF assms(1) lx assms(3), of aYear] by blast
  obtain T' where T': "get_aPercentSources aYear init (der[1 := y]) sec = Inr T'"
    "length T' = length aYear"
    "\<forall>i < length aYear. length (T' ! i) = 6 \<and> row_rule aYear init (der[1 := y]) sec T' i"
    using get_aPercentSources_rows [OF assms(1) ly assms(3), of aYear] by blast
  have f: "spec_feasible t init (der[1 := y]) sec = spec_feasible t init (der[1 := x]) sec" for t
    unfolding spec_accepted_der_1(1) [OF assms] ..
  have a: "spec_accepted t init (der[1 := y]) sec = spec_accepted t init (der[1 := x]) sec" for t
    unfolding spec_accepted_der_1(2) [OF assms] ..
  have r: "\<And>i. i < length aYear \<Longrightarrow> row_rule aYear init (der[1 := x]) sec T i"
    using T(3) by blast
  have r': "\<And>i. i < length aYear \<Longrightarrow> row_rule aYear init (der[1 := y]) sec T' i"
    using T'(3) by blast
  have "T = T'"
    by (rule row_rule_unique [OF T(2) T'(2) r r' f a])
  with T(1) T'(1) show ?thesis by simp
qed

theorem get_aPercentSources_ignores_NG_derivative_witness:
  "get_aPercentSources [2021, 2030] initial_percentages [-1.89, 0, 0.0976, 1.29, -0.116, 0] [0, 0, 0, 0, 0, 0]
     = get_aPercentSources [2021, 2030] initial_percentages [-1.89, 1000, 0.0976, 1.29, -0.116, 0] [0, 0, 0, 0, 0, 0]"
proof -
  have h: "length initial_percentages = 6" "length [-1.89, 0, 0.0976, 1.29, -0.116, 0 :: real] = 6"
    "length [0, 0, 0, 0, 0, 0 :: real] = 6"
    by (simp_all add: initial_percentages_def)
  from get_aPercentSources_ignores_NG_derivative [OF h, of "[2021, 2030]" 0 1000]
  show ?thesis by simp
qed

section \<open>Declining channels\<close>

lemma trend_mono:
  fixes s d p a b :: real
  assumes "s < 0" "d < 0" "0 \<le> a" "a \<le> b"
  shows "s * 0.5 * b ^ 2 + d * b + p \<le> s * 0.5 * a ^ 2 + d * a + p"
proof -
  have "a ^ 2 \<le> b ^ 2" using assms(3,4) by (simp add: power_mono)
  then have "s * 0.5 * b ^ 2 \<le> s * 0.5 * a ^ 2"
    using assms(1) by (simp add: mult_left_mono_neg)
  moreover have "d * b \<le> d * a"
    using assms(2,4) by (simp add: mult_left_mono_neg)
  ultimately show ?thesis by simp
qed

lemma clip_mono: "x \<le> y \<Longrightarrow> clip x \<le> clip y"
  by (simp add: clip_def)

lemma spec_accepted_nth:
  assumes "c < 6" "c \<noteq> 1"
  shows "spec_accepted t init der sec ! c =
           clip (sec ! c * 0.5 * (t - 2021) ^ 2 + der ! c * (t - 2021) + init ! c)"
  using assms by (simp add: spec_accepted_def spec_repaired_nth)

text \<open>
  Claim C6, as amended. Let \<open>c\<close> be one of the channels 0, 2, 3, 4, 5 with a negative first
  derivative, a negative second derivative and a positive initial percentage. On a time
  grid that is non-decreasing and whose samples are all at or after the reference year
  2021, and when no sample freezes (every slack is nonnegative), the value of channel \<open>c\<close>
  is nonnegative and non-increasing along the trajectory, and once it is zero it is zero at
  every later sample. The polynomial is anchored at 2021, so before 2021 the same trend
  can rise.
\<close>

theorem get_aPercentSources_monotone_decline:
  assumes "length init = 6" "length der = 6" "length sec = 6"
    and "c \<in> {0, 2, 3, 4, 5}" "der ! c < 0" "sec ! c < 0" "0 < init ! c"
    and "sorted aYear" "\<forall>t \<in> set aYear. 2021 \<le> t"
    and "\<forall>t \<in> set aYear. 0 \<le> spec_slack (spec_repaired t init der sec)"
  shows "\<exists>T. get_aPercentSources aYear init der sec = Inr T \<and> length T = length aYear \<and>
           (\<forall>i j. i \<le> j \<and> j < length aYear \<longrightarrow>
               0 \<le> T ! j ! c \<and> T ! j ! c \<le> T ! i ! c \<and> (T ! i ! c = 0 \<longrightarrow> T ! j ! c = 0))"
proof -
  obtain T where T: "get_aPercentSources aYear init der sec = Inr T" "length T = length aYear"
    "\<forall>i < length aYear. length (T ! i) = 6 \<and> row_rule aYear init der sec T i"
    using get_aPercentSources_rows [OF assms(1-3), of aYear] by blast
  have c: "c < 6" "c \<noteq> 1" using assms(4) by auto
  have row: "T ! i ! c = clip (sec ! c * 0.5 * (aYear ! i - 2021) ^ 2 + der ! c * (aYear ! i - 2021) + init ! c)"
    if "i < length aYear" for i
  proof -
    from that assms(10) have "spec_feasible (aYear ! i) init der sec"
      by (simp add: spec_feasible_def)
    with T(3) that have "T ! i = spec_accepted (aYear ! i) init der sec"
      by (simp add: row_rule_def)
    then show ?thesis by (simp add: spec_accepted_nth [OF c])
  qed
  have mono: "0 \<le> T ! j ! c \<and> T ! j ! c \<le> T ! i ! c \<and> (T ! i ! c = 0 \<longrightarrow> T ! j ! c = 0)"
    if "i \<le> j" "j < length aYear" for i j
  proof -
    from that have i: "i < length aYear" by simp
    have "aYear ! i \<le> aYear ! j" using assms(8) that by (simp add: sorted_nth_mono)
    moreover have "2021 \<le> aYear ! i" using assms(9) i by simp
    ultimately have "sec ! c * 0.5 * (aYear ! j - 2021) ^ 2 + der ! c * (aYear ! j - 2021) + init ! c
        \<le> sec ! c * 0.5 * (aYear ! i - 2021) ^ 2 + der ! c * (aYear ! i - 2021) + init ! c"
      using assms(5,6) by (intro trend_mono) simp_all
    then have le: "T ! j ! c \<le> T ! i ! c"
      unfolding row [OF i] row [OF that(2)] by (rule clip_mono)
    have "0 \<le> T ! j ! c" unfolding row [OF that(2)] by (rule clip_nonneg)
    with le show ?thesis by simp
  qed
  with T(1,2) show ?thesis by blast
qed

theorem get_aPercentSources_monotone_decline_counterexample:
  "get_aPercentSources [2019, 2020] [10, 90, 0, 0, 0, 0] [-1, 0, 0, 0, 0, 0] [-1, 0, 0, 0, 0, 0]
     = Inr [[10, 90, 0, 0, 0, 0], [21 / 2, 179 / 2, 0, 0, 0, 0]]
   \<and> [-1, 0, 0, 0, 0, 0 :: real] ! 0 < 0 \<and> 0 < [10, 90, 0, 0, 0, 0 :: real] ! 0
   \<and> 0 \<le> spec_slack (spec_repaired 2019 [10, 90, 0, 0, 0, 0] [-1, 0, 0, 0, 0, 0] [-1, 0, 0, 0, 0, 0])
   \<and> 0 \<le> spec_slack (spec_repaired 2020 [10, 90, 0, 0, 0, 0] [-1, 0, 0, 0, 0, 0] [-1, 0, 0, 0, 0, 0])
   \<and> [10, 90, 0, 0, 0, 0 :: real] ! 0 < [21 / 2, 179 / 2, 0, 0, 0, 0] ! 0"
  by code_simp

theorem get_aPercentSources_monotone_decline_witness:
  "\<exists>T. get_aPercentSources [2021, 2022, 2040] [10, 90, 0, 0, 0, 0] [-1, 0, 0, 0, 0, 0]
          [-1, 0, 0, 0, 0, 0] = Inr T
     \<and> length T = 3 \<and> T ! 1 ! 0 \<le> T ! 0 ! 0 \<and> T ! 2 ! 0 \<le> T ! 1 ! 0 \<and> 0 \<le> T ! 2 ! 0"
proof -
  let ?g = "[2021, 2022, 2040] :: real list"
  let ?i = "[10, 90, 0, 0, 0, 0] :: real list"
  let ?d = "[-1, 0, 0, 0, 0, 0] :: real list"
  have h: "length ?i = 6" "length ?d = 6" "length ?d = 6" "(0::nat) \<in> {0, 2, 3, 4, 5}"
    "?d ! 0 < 0" "?d ! 0 < 0" "0 < ?i ! 0" "sorted ?g" "\<forall>t \<in> set ?g. 2021 \<le> t"
    by simp_all
  have f: "\<forall>t \<in> set ?g. 0 \<le> spec_slack (spec_repaired t ?i ?d ?d)"
    by code_simp
  from get_aPercentSources_monotone_decline [OF h f] obtain T where
    T: "get_aPercentSources ?g ?i ?d ?d = Inr T" "length T = length ?g"
    and M: "\<forall>i j. i \<le> j \<and> j < length ?g \<longrightarrow>
               0 \<le> T ! j ! 0 \<and> T ! j ! 0 \<le> T ! i ! 0 \<and> (T ! i ! 0 = 0 \<longrightarrow> T ! j ! 0 = 0)"
    by blast
  from M [rule_format, of 0 1] have a: "T ! 1 ! 0 \<le> T ! 0 ! 0" by simp
  from M [rule_format, of 1 2] have b: "T ! 2 ! 0 \<le> T ! 1 ! 0" "0 \<le> T ! 2 ! 0" by simp_all
  from T a b show ?thesis by simp
qed

section \<open>Reliability\<close>

lemma reliability_loop_prefix:
  assumes "k \<le> n" "n \<le> length u" "n \<le> length A" "\<forall>i < n. length (A ! i) = length rel"
  shows "for_range [0..<k] (reliability_item u rel A) (replicate n 0) =
           Inr (map (\<lambda>i. u ! i * sum_list (map2 (*) rel (A ! i))) [0..<k] @ replicate (n - k) 0)"
  using assms(1)
proof (induction k)
  case 0
  then show ?case by simp
next
  case (Suc k)
  then have IH: "for_range [0..<k] (reliability_item u rel A) (replicate n 0) =
           Inr (map (\<lambda>i. u ! i * sum_list (map2 (*) rel (A ! i))) [0..<k] @ replicate (n - k) 0)"
    by simp
  have k: "k < n" using Suc.prems by simp
  have r: "replicate (n - k) (0::real) = 0 # replicate (n - Suc k) 0"
    using k by (simp add: Suc_diff_Suc flip: replicate_Suc)
  have "reliability_item u rel A k (map (\<lambda>i. u ! i * sum_list (map2 (*) rel (A ! i))) [0..<k] @ replicate (n - k) 0)
      = Inr (map (\<lambda>i. u ! i * sum_list (map2 (*) rel (A ! i))) [0..<Suc k] @ replicate (n - Suc k) 0)"
    using k assms(2-4) unfolding r
    by (simp add: reliability_item_def np_dot_def list_update_append)
  then show ?case
    unfolding for_range_upt_Suc IH by simp
qed

lemma get_aReliability_value:
  assumes "2 \<le> length aYear" "6 \<le> length rel" "length aYear \<le> length aEnergy"
    "length aYear \<le> length A" "\<forall>i < length aYear. length (A ! i) = length rel"
    "dirE * 2021 - 1.35 * 10 ^ 10 \<noteq> 0"
  shows "get_aReliability aYear A aEnergy perc dirE rel =
     (Inr (map (\<lambda>i. aEnergy ! i / (dirE * 2021 - 1.35 * 10 ^ 10)
                      * sum_list (map2 (*) (rel[5 := 0]) (A ! i))) [0..<length aYear]),
      rel[5 := 0])"
proof -
  define E where "E = dirE * 2021 - 1.35 * 10 ^ 10"
  define u where "u = map (\<lambda>e. e / E) aEnergy"
  have lu: "length aYear \<le> length u"
    using assms(3) by (simp add: u_def)
  have l: "\<forall>i < length aYear. length (A ! i) = length (rel[5 := 0])"
    using assms(5) by simp
  have loop: "for_range [0..<length aYear] (reliability_item u (rel[5 := 0]) A)
                (replicate (length aYear) 0) =
              Inr (map (\<lambda>i. u ! i * sum_list (map2 (*) (rel[5 := 0]) (A ! i))) [0..<length aYear])"
    using reliability_loop_prefix [OF order_refl lu assms(4) l] by simp
  have map_eq: "map (\<lambda>i. u ! i * sum_list (map2 (*) (rel[5 := 0]) (A ! i))) [0..<length aYear] =
                map (\<lambda>i. aEnergy ! i / E * sum_list (map2 (*) (rel[5 := 0]) (A ! i))) [0..<length aYear]"
    using assms(3) by (intro map_cong) (auto simp: u_def)
  have unfold: "get_aReliability aYear A aEnergy perc dirE rel =
      (bind_res (for_range [0..<length aYear] (reliability_item u (rel[5 := 0]) A)
                   (replicate (length aYear) 0))
         (\<lambda>r. if E = 0 then Inl NonFinite else Inr r), rel[5 := 0])"
    using assms(1,2) by (simp add: get_aReliability_def Let_def E_def u_def)
  show ?thesis
    unfolding unfold loop map_eq using assms(6) by (simp add: E_def)
qed

lemma get_aReliability_snd:
  assumes "2 \<le> length aYear" "6 \<le> length rel"
  shows "snd (get_aReliability aYear A aEnergy perc dirE rel) = rel[5 := 0]"
  using assms by (simp add: get_aReliability_def Let_def)

lemma get_aReliability_returns:
  assumes "fst (get_aReliability aYear A aEnergy perc dirE rel) = Inr r"
  shows "2 \<le> length aYear \<and> 6 \<le> length rel"
  using assms by (auto simp add: get_aReliability_def Let_def split: if_splits)

text \<open>
  Claim C4. With the default effectiveness 83.5 and the default growth rate, on a grid of
  at least two samples with a six-element coefficient vector, \<^verbatim>\<open>get_aReliability\<close>
  overwrites the WinterNaturalGas coefficient with (1 - 83.5/100) times entry 1 of the
  freshly zeroed reliability array, which is 0, and returns for every sample \<open>i\<close> the
  energy of the sample divided by the energy of 2021 times the dot product of the
  coefficients with row \<open>i\<close>. The energy of 2021 is the energy projection at the year
  2021, 6.92e6 * 2021 - 1.35e10, whatever the energy series holds.
\<close>

theorem get_aReliability_default_formula:
  assumes "2 \<le> length aYear" "length rel = 6" "length aYear \<le> length aEnergy"
    and "length aYear \<le> length A" "\<forall>i < length aYear. length (A ! i) = 6"
  shows "get_aReliability aYear A aEnergy 83.5 (6.92 * 10 ^ 6) rel =
           (Inr (map (\<lambda>i. aEnergy ! i / (6.92 * 10 ^ 6 * 2021 - 1.35 * 10 ^ 10)
                            * sum_list (map2 (*) (rel[5 := 0]) (A ! i))) [0..<length aYear]),
            rel[5 := 0])
       \<and> rel[5 := 0] = rel[5 := (1 - 83.5 / 100) * replicate (length aYear) 0 ! 1]
       \<and> get_aEnergy [2021] (6.92 * 10 ^ 6) = [6.92 * 10 ^ 6 * 2021 - 1.35 * 10 ^ 10]"
proof -
  have r: "6 \<le> length rel" using assms(2) by simp
  have l: "\<forall>i < length aYear. length (A ! i) = length rel" using assms(2,5) by simp
  have E: "(6.92 * 10 ^ 6 :: real) * 2021 - 1.35 * 10 ^ 10 \<noteq> 0" by simp
  have "(1 - 83.5 / 100) * replicate (length aYear) 0 ! 1 = (0::real)"
    using assms(1) by simp
  then have z: "rel[5 := 0] = rel[5 := (1 - 83.5 / 100) * replicate (length aYear) 0 ! 1]"
    by simp
  have e: "get_aEnergy [2021] (6.92 * 10 ^ 6) = [6.92 * 10 ^ 6 * 2021 - 1.35 * 10 ^ 10]"
    by (simp add: get_aEnergy_def)
  from get_aReliability_value [OF assms(1) r assms(3,4) l E] z e show ?thesis by blast
qed

theorem get_aReliability_default_formula_witness:
  "get_aReliability [2021, 2030] [[1, 0, 0, 0, 0, 0], [0, 0, 0, 0, 0, 1]] [485320000, 970640000]
     83.5 (6.92 * 10 ^ 6) [2, 3, 4, 5, 6, 7] = (Inr [2, 0], [2, 3, 4, 5, 6, 0])"
proof -
  let ?g = "[2021, 2030] :: real list"
  let ?A = "[[1, 0, 0, 0, 0, 0], [0, 0, 0, 0, 0, 1]] :: real list list"
  let ?e = "[485320000, 970640000] :: real list"
  let ?r = "[2, 3, 4, 5, 6, 7] :: real list"
  have h: "2 \<le> length ?g" "length ?r = 6" "length ?g \<le> length ?e" "length ?g \<le> length ?A"
    "\<forall>i < length ?g. length (?A ! i) = 6"
    by (simp_all add: less_Suc_eq)
  have v: "map (\<lambda>i. ?e ! i / (6.92 * 10 ^ 6 * 2021 - 1.35 * 10 ^ 10)
                            * sum_list (map2 (*) [2, 3, 4, 5, 6, 0] (?A ! i))) [0..<length ?g] = [2, 0]"
    by code_simp
  have w: "?r[5 := 0] = [2, 3, 4, 5, 6, 0]" by code_simp
  from get_aReliability_default_formula [OF h]
  have "get_aReliability ?g ?A ?e 83.5 (6.92 * 10 ^ 6) ?r =
           (Inr (map (\<lambda>i. ?e ! i / (6.92 * 10 ^ 6 * 2021 - 1.35 * 10 ^ 10)
                            * sum_list (map2 (*) (?r[5 := 0]) (?A ! i))) [0..<length ?g]),
            ?r[5 := 0])"
    by (rule conjunct1)
  then show ?thesis
    by (simp only: w v)
qed

text \<open>
  Claim C8. A call on a grid of at least two samples with a coefficient array of at least
  six entries (every call that returns is one) leaves the array it was given with entry 5
  equal to 0, entries 0 to 4 and the length unchanged. When the array is the module-level
  default, the module state holds the written array after the call, and the next call
  that uses the default starts from it.
\<close>

theorem get_aReliability_mutates_coefficients:
  assumes "2 \<le> length aYear" "6 \<le> length rel"
  shows "(let rel' = snd (get_aReliability aYear A aEnergy perc dirE rel) in
           length rel' = length rel \<and> rel' ! 5 = 0 \<and> (\<forall>j < 5. rel' ! j = rel ! j))
       \<and> (let s' = snd (get_aReliability_default aYear A aEnergy (s\<lparr>g_aRelScores := rel\<rparr>)) in
           g_aRelScores s' = rel[5 := 0] \<and>
           get_aReliability_default aYear' A' aEnergy' s' =
             (fst (get_aReliability aYear' A' aEnergy' 83.5 (6.92 * 10 ^ 6) (rel[5 := 0])),
              s'\<lparr>g_aRelScores :=
                   snd (get_aReliability aYear' A' aEnergy' 83.5 (6.92 * 10 ^ 6) (rel[5 := 0]))\<rparr>))"
proof -
  have a: "snd (get_aReliability aYear A aEnergy perc dirE rel) = rel[5 := 0]" for perc dirE
    using assms by (rule get_aReliability_snd)
  have b: "g_aRelScores (snd (get_aReliability_default aYear A aEnergy (s\<lparr>g_aRelScores := rel\<rparr>)))
             = rel[5 := 0]"
    by (simp add: get_aReliability_default_def split_beta a)
  have c: "get_aReliability_default aYear' A' aEnergy' s' =
             (fst (get_aReliability aYear' A' aEnergy' 83.5 (6.92 * 10 ^ 6) (g_aRelScores s')),
              s'\<lparr>g_aRelScores :=
                   snd (get_aReliability aYear' A' aEnergy' 83.5 (6.92 * 10 ^ 6) (g_aRelScores s'))\<rparr>)"
    for s'
    by (simp add: get_aReliability_default_def split_beta)
  have d: "length (rel[5 := 0]) = length rel \<and> rel[5 := 0] ! 5 = 0 \<and>
           (\<forall>j < 5. rel[5 := 0] ! j = rel ! j)"
    using assms(2) by simp
  show ?thesis
    unfolding Let_def a using d b c [of "snd (get_aReliability_default aYear A aEnergy (s\<lparr>g_aRelScores := rel\<rparr>))"]
    by (simp only: b) simp
qed

theorem get_aReliability_mutates_coefficients_witness:
  "snd (get_aReliability [2021, 2030] [[1, 0, 0, 0, 0, 0], [0, 0, 0, 0, 0, 1]]
          [485320000, 970640000] 83.5 (6.92 * 10 ^ 6) [2, 3, 4, 5, 6, 7]) ! 5 = 0
   \<and> snd (get_aReliability [2021, 2030] [[1, 0, 0, 0, 0, 0], [0, 0, 0, 0, 0, 1]]
          [485320000, 970640000] 83.5 (6.92 * 10 ^ 6) [2, 3, 4, 5, 6, 7]) ! 4 = 6
   \<and> g_aRelScores (snd (get_aReliability_default [2021, 2030]
        [[1, 0, 0, 0, 0, 0], [0, 0, 0, 0, 0, 1]] [485320000, 970640000]
        \<lparr>g_aRelScores = [2, 3, 4, 5, 6, 7]\<rparr>)) = [2, 3, 4, 5, 6, 0]"
proof -
  have h: "2 \<le> length [2021, 2030 :: real]" "6 \<le> length [2, 3, 4, 5, 6, 7 :: real]"
    by simp_all
  from get_aReliability_mutates_coefficients [OF h,
      of "[[1, 0, 0, 0, 0, 0], [0, 0, 0, 0, 0, 1]]" "[485320000, 970640000]" "83.5" "6.92 * 10 ^ 6"
      "\<lparr>g_aRelScores = []\<rparr>" "[]" "[]" "[]"]
  show ?thesis by (simp add: Let_def)
qed

text \<open>
  Claim C10. The result and the array left behind by \<^verbatim>\<open>get_aReliability\<close> are the
  same for any two values of \<open>perc_effective\<close>, all other arguments being equal.
\<close>

theorem get_aReliability_ignores_perc_effective:
  "get_aReliability aYear A aEnergy perc dirE rel = get_aReliability aYear A aEnergy perc' dirE rel"
  by (simp add: get_aReliability_def Let_def)

theorem get_aReliability_ignores_perc_effective_witness:
  "get_aReliability [2021, 2030] [[1, 0, 0, 0, 0, 0], [0, 0, 0, 0, 0, 1]] [485320000, 970640000]
     83.5 (6.92 * 10 ^ 6) [2, 3, 4, 5, 6, 7]
   = get_aReliability [2021, 2030] [[1, 0, 0, 0, 0, 0], [0, 0, 0, 0, 0, 1]] [485320000, 970640000]
     0 (6.92 * 10 ^ 6) [2, 3, 4, 5, 6, 7]"
  by (rule get_aReliability_ignores_perc_effective)

section \<open>Rounding to binary64\<close>

lemma round_even_error: "\<bar>of_int (round_even y) - y\<bar> \<le> 1 / 2"
proof -
  have "of_int \<lfloor>y\<rfloor> \<le> y" "y < of_int \<lfloor>y\<rfloor> + 1" by linarith+
  then show ?thesis
    unfolding round_even_def round_even_from_def by (auto simp: abs_le_iff)
qed

lemma round_even_nonneg: "0 \<le> y \<Longrightarrow> 0 \<le> round_even y"
  unfolding round_even_def round_even_from_def by auto

lemma ilog2_lower:
  assumes "0 < x"
  shows "2 powi (ilog2 x) \<le> x"
proof (cases "1 \<le> x")
  case True
  then have n: "0 < \<lfloor>x\<rfloor>" by linarith
  from bitlen_bounds [OF n] have b: "2 ^ nat (bitlen \<lfloor>x\<rfloor> - 1) \<le> \<lfloor>x\<rfloor>" by simp
  have "1 \<le> bitlen \<lfloor>x\<rfloor>" using n by (simp add: bitlen_alt_def)
  then have "(2::real) powi (bitlen \<lfloor>x\<rfloor> - 1) = 2 ^ nat (bitlen \<lfloor>x\<rfloor> - 1)"
    by (simp add: power_int_nonneg_exp)
  also have "\<dots> = of_int (2 ^ nat (bitlen \<lfloor>x\<rfloor> - 1))" by simp
  also have "\<dots> \<le> of_int \<lfloor>x\<rfloor>" using b by (simp only: of_int_le_iff)
  also have "\<dots> \<le> x" by linarith
  finally show ?thesis using True by (simp add: ilog2_def)
next
  case False
  with assms have x: "0 < x" "x < 1" by simp_all
  then have "1 < 1 / x" by simp
  then have m: "0 < \<lceil>1 / x\<rceil> - 1" by linarith
  define b where "b = bitlen (\<lceil>1 / x\<rceil> - 1)"
  from bitlen_bounds [OF m] have "\<lceil>1 / x\<rceil> - 1 < 2 ^ nat b" by (simp add: b_def)
  then have "\<lceil>1 / x\<rceil> \<le> 2 ^ nat b" by simp
  then have "of_int \<lceil>1 / x\<rceil> \<le> (of_int (2 ^ nat b) :: real)" by (simp only: of_int_le_iff)
  moreover have "1 / x \<le> of_int \<lceil>1 / x\<rceil>" by linarith
  moreover have "(of_int (2 ^ nat b) :: real) = 2 ^ nat b" by simp
  ultimately have le: "1 / x \<le> 2 ^ nat b" by linarith
  have b0: "0 \<le> b" by (simp add: b_def bitlen_nonneg)
  have "(2::real) powi (- b) = 1 / 2 ^ nat b"
    using b0 by (simp add: power_int_def field_simps)
  also have "\<dots> \<le> x" using le x(1) by (simp add: field_simps)
  finally show ?thesis using False by (simp add: ilog2_def b_def)
qed

lemma round_f64_0 [simp]: "round_f64 0 = 0"
  by (simp add: round_f64_def)

lemma round_f64_nonneg:
  assumes "0 \<le> x"
  shows "0 \<le> round_f64 x"
proof (cases "x = 0")
  case True
  then show ?thesis by simp
next
  case False
  define q :: real where "q = 2 powi (max (ilog2 \<bar>x\<bar>) (- 1022) - 52)"
  have q: "0 < q" by (simp add: q_def)
  then have "0 \<le> x / q" using assms by simp
  then have "0 \<le> round_even (x / q)" by (rule round_even_nonneg)
  then show ?thesis using False q by (simp add: round_f64_def round_to_def q_def)
qed

lemma round_f64_error:
  "\<bar>round_f64 x - x\<bar> \<le> \<bar>x\<bar> / 2 ^ 53 + 1 / 2 ^ 1075"
proof (cases "x = 0")
  case True
  then show ?thesis by simp
next
  case False
  define e where "e = max (ilog2 \<bar>x\<bar>) (- 1022)"
  define q :: real where "q = 2 powi (e - 52)"
  have q: "0 < q" by (simp add: q_def)
  have r: "round_f64 x = of_int (round_even (x / q)) * q"
    using False by (simp add: round_f64_def round_to_def q_def e_def)
  have "round_f64 x - x = (of_int (round_even (x / q)) - x / q) * q"
    using q by (simp add: r field_simps)
  then have "\<bar>round_f64 x - x\<bar> = \<bar>of_int (round_even (x / q)) - x / q\<bar> * q"
    using q by (simp add: abs_mult)
  also have "\<dots> \<le> 1 / 2 * q"
    using q round_even_error [of "x / q"] by (intro mult_right_mono) simp_all
  finally have half: "\<bar>round_f64 x - x\<bar> \<le> q / 2" by simp
  have "q / 2 \<le> \<bar>x\<bar> / 2 ^ 53 + 1 / 2 ^ 1075"
  proof (cases "- 1022 \<le> ilog2 \<bar>x\<bar>")
    case True
    then have e: "e = ilog2 \<bar>x\<bar>" by (simp add: e_def)
    have "q = 2 powi e * 2 powi (- 52)"
      unfolding q_def by (simp add: power_int_diff power_int_minus field_simps)
    also have "(2::real) powi (- 52) = 1 / 2 ^ 52"
      by (simp add: power_int_def field_simps)
    finally have "q / 2 = 2 powi e / 2 ^ 53" by simp
    also have "\<dots> \<le> \<bar>x\<bar> / 2 ^ 53"
      using ilog2_lower [of "\<bar>x\<bar>"] False by (simp add: e divide_right_mono)
    finally show ?thesis by simp
  next
    case False
    then have e: "e = - 1022" by (simp add: e_def)
    have "q = 1 / 2 ^ 1074" unfolding q_def e by (simp add: power_int_def field_simps)
    then have "q / 2 = 1 / 2 ^ 1075" by simp
    then show ?thesis by simp
  qed
  with half show ?thesis by linarith
qed


lemma ilog2_upper:
  assumes "0 < x"
  shows "x < 2 powi (ilog2 x + 1)"
proof (cases "1 \<le> x")
  case True
  then have n: "0 < \<lfloor>x\<rfloor>" by linarith
  define b where "b = bitlen \<lfloor>x\<rfloor>"
  from bitlen_bounds [OF n] have "\<lfloor>x\<rfloor> < 2 ^ nat b" by (simp add: b_def)
  then have "\<lfloor>x\<rfloor> + 1 \<le> 2 ^ nat b" by simp
  then have "of_int (\<lfloor>x\<rfloor> + 1) \<le> (of_int (2 ^ nat b) :: real)" by (simp only: of_int_le_iff)
  moreover have "x < of_int (\<lfloor>x\<rfloor> + 1)" by linarith
  moreover have "(of_int (2 ^ nat b) :: real) = 2 ^ nat b" by simp
  ultimately have "x < 2 ^ nat b" by linarith
  moreover have "0 \<le> b" by (simp add: b_def bitlen_nonneg)
  then have "(2::real) powi b = 2 ^ nat b" by (simp add: power_int_nonneg_exp)
  ultimately show ?thesis using True by (simp add: ilog2_def b_def)
next
  case False
  with assms have x: "0 < x" "x < 1" by simp_all
  then have "1 < 1 / x" by simp
  then have m: "0 < \<lceil>1 / x\<rceil> - 1" by linarith
  define b where "b = bitlen (\<lceil>1 / x\<rceil> - 1)"
  have b1: "1 \<le> b" using m by (simp add: b_def bitlen_alt_def)
  from bitlen_bounds [OF m] have "2 ^ nat (b - 1) \<le> \<lceil>1 / x\<rceil> - 1" by (simp add: b_def)
  then have "(of_int (2 ^ nat (b - 1)) :: real) \<le> of_int (\<lceil>1 / x\<rceil> - 1)"
    by (simp only: of_int_le_iff)
  moreover have "of_int (\<lceil>1 / x\<rceil> - 1) < 1 / x" by linarith
  moreover have "(of_int (2 ^ nat (b - 1)) :: real) = 2 ^ nat (b - 1)" by simp
  ultimately have "2 ^ nat (b - 1) < 1 / x" by linarith
  then have "x < 1 / 2 ^ nat (b - 1)" using x(1) by (simp add: field_simps)
  moreover have "(2::real) powi (- b + 1) = 1 / 2 ^ nat (b - 1)"
    using b1 by (simp add: power_int_def field_simps)
  ultimately show ?thesis using False by (simp add: ilog2_def b_def)
qed

lemma ilog2_unique:
  assumes "0 < x" "2 powi e \<le> x" "x < 2 powi (e + 1)"
  shows "ilog2 x = e"
proof (rule ccontr)
  assume ne: "ilog2 x \<noteq> e"
  show False
  proof (cases "ilog2 x < e")
    case True
    then have "ilog2 x + 1 \<le> e" by simp
    then have "(2::real) powi (ilog2 x + 1) \<le> 2 powi e" by (intro power_int_increasing) simp_all
    with ilog2_upper [OF assms(1)] assms(2) show False by linarith
  next
    case False
    with ne have "e + 1 \<le> ilog2 x" by simp
    then have "(2::real) powi (e + 1) \<le> 2 powi (ilog2 x)" by (intro power_int_increasing) simp_all
    with ilog2_lower [OF assms(1)] assms(3) show False by linarith
  qed
qed

text \<open>Rounding a number whose binary exponent is known: \<open>k\<close> is 52 minus the exponent.\<close>

lemma round_f64_eval:
  assumes "2 ^ 52 \<le> \<bar>x\<bar> * 2 ^ k" "\<bar>x\<bar> * 2 ^ k < 2 ^ 53" "k \<le> 1074"
  shows "round_f64 x = of_int (round_even (x * 2 ^ k)) / 2 ^ k"
proof -
  have x: "x \<noteq> 0" using assms(1) by auto
  have p: "(2::real) powi (52 - int k) = 2 ^ 52 / 2 ^ k"
    by (simp add: power_int_diff)
  have p': "(2::real) powi (53 - int k) = 2 ^ 53 / 2 ^ k"
    by (simp add: power_int_diff)
  have "ilog2 \<bar>x\<bar> = 52 - int k"
    using x assms(1,2) by (intro ilog2_unique) (simp_all add: p p' field_simps)
  moreover have "(2::real) powi (52 - int k - 52) = 1 / 2 ^ k"
    by (simp add: power_int_def field_simps)
  ultimately show ?thesis
    using x assms(3) by (simp add: round_f64_def round_to_def max_def)
qed

lemmas rnd_eval =
  round_f64_eval [where k = 45] round_f64_eval [where k = 46] round_f64_eval [where k = 47]
  round_f64_eval [where k = 48] round_f64_eval [where k = 49] round_f64_eval [where k = 50]
  round_f64_eval [where k = 51] round_f64_eval [where k = 52] round_f64_eval [where k = 53]
  round_f64_eval [where k = 54] round_f64_eval [where k = 55] round_f64_eval [where k = 56]
  round_even_def round_even_from_def

section \<open>The loop in double precision\<close>

lemma percent_row_fl_exact: "percent_row_fl (\<lambda>x. x) = percent_row"
  by (intro ext) (simp add: percent_row_fl_def percent_row_def np_add_fl_def np_add_def
      np_scale_fl_def np_scale_def)

lemma get_aPercentSources_fl_exact: "get_aPercentSources_fl (\<lambda>x. x) = get_aPercentSources"
  by (intro ext) (simp add: get_aPercentSources_fl_def get_aPercentSources_def percent_row_fl_exact)

lemma fl_candidate_6:
  "bind_res (np_add_fl rnd (np_scale_fl rnd [s0, s1, s2, s3, s4, s5] a)
                           (np_scale_fl rnd [d0, d1, d2, d3, d4, d5] b)) (\<lambda>S.
     bind_res (np_add_fl rnd S [a0, a1, a2, a3, a4, a5]) f)
   = f [rnd (rnd (rnd (s0 * a) + rnd (d0 * b)) + a0), rnd (rnd (rnd (s1 * a) + rnd (d1 * b)) + a1),
        rnd (rnd (rnd (s2 * a) + rnd (d2 * b)) + a2), rnd (rnd (rnd (s3 * a) + rnd (d3 * b)) + a3),
        rnd (rnd (rnd (s4 * a) + rnd (d4 * b)) + a4), rnd (rnd (rnd (s5 * a) + rnd (d5 * b)) + a5)]"
  by (simp add: np_add_fl_def np_scale_fl_def)

lemma fl_candidate_list_6:
  "fl_candidate rnd t [a0, a1, a2, a3, a4, a5] [d0, d1, d2, d3, d4, d5] [s0, s1, s2, s3, s4, s5] =
     [rnd (rnd (rnd (s0 * rnd (0.5 * rnd (rnd (t - 2021) ^ 2))) + rnd (d0 * rnd (t - 2021))) + a0),
      rnd (rnd (rnd (s1 * rnd (0.5 * rnd (rnd (t - 2021) ^ 2))) + rnd (d1 * rnd (t - 2021))) + a1),
      rnd (rnd (rnd (s2 * rnd (0.5 * rnd (rnd (t - 2021) ^ 2))) + rnd (d2 * rnd (t - 2021))) + a2),
      rnd (rnd (rnd (s3 * rnd (0.5 * rnd (rnd (t - 2021) ^ 2))) + rnd (d3 * rnd (t - 2021))) + a3),
      rnd (rnd (rnd (s4 * rnd (0.5 * rnd (rnd (t - 2021) ^ 2))) + rnd (d4 * rnd (t - 2021))) + a4),
      rnd (rnd (rnd (s5 * rnd (0.5 * rnd (rnd (t - 2021) ^ 2))) + rnd (d5 * rnd (t - 2021))) + a5)]"
  by (simp add: fl_candidate_def upt_6)

lemma length_fl_candidate [simp]: "length (fl_candidate rnd t init der sec) = 6"
  by (simp add: fl_candidate_def)

lemma length_spec_clamp [simp]: "length (spec_clamp P) = 6"
  by (simp add: spec_clamp_def)

lemma length_fl_row [simp]: "length (fl_row rnd P) = 6"
  by (simp add: fl_row_def)

lemma percent_row_fl_vec6:
  assumes "length init = 6" "length der = 6" "length sec = 6" "i < length A"
    and "0 < i \<Longrightarrow> length (A ! (i - 1)) = 6"
  shows "percent_row_fl rnd A i t init der sec =
     Inr (A[i := (if 0 \<le> fl_slack rnd (spec_clamp (fl_candidate rnd t init der sec))
                  then fl_row rnd (fl_candidate rnd t init der sec)
                  else if 0 < i then A ! (i - 1) else init)])"
proof -
  obtain a0 a1 a2 a3 a4 a5 where i: "init = [a0, a1, a2, a3, a4, a5]"
    using assms(1) by (rule length_6_cases)
  obtain d0 d1 d2 d3 d4 d5 where d: "der = [d0, d1, d2, d3, d4, d5]"
    using assms(2) by (rule length_6_cases)
  obtain s0 s1 s2 s3 s4 s5 where s: "sec = [s0, s1, s2, s3, s4, s5]"
    using assms(3) by (rule length_6_cases)
  define C where "C = spec_clamp (fl_candidate rnd t init der sec)"
  have row: "percent_row_fl rnd A i t init der sec =
     (let NG = rnd (100 - rnd (rnd (rnd (rnd (C ! 0 + C ! 2) + C ! 3) + C ! 4) + C ! 5)) in
       if NG \<ge> 0 then bind_res (set_row i C A) (set_item i 1 NG)
       else if i > 0 then set_row i (A ! (i - 1)) A
       else set_row i init A)"
    unfolding percent_row_fl_def C_def i d s fl_candidate_list_6 fl_candidate_6 clamp_chain spec_clamp_6
    ..
  have len: "length C = 6" by (simp add: C_def)
  show ?thesis
    unfolding row fl_row_def C_def [symmetric] using assms(1,4,5) len
    by (auto simp add: Let_def fl_slack_def set_row_def set_item_def)
qed

lemma percent_loop_fl_prefix:
  assumes "length init = 6" "length der = 6" "length sec = 6" "k \<le> length aYear"
  shows "\<exists>A. for_range [0..<k] (\<lambda>i A. percent_row_fl rnd A i (aYear ! i) init der sec)
                (replicate (length aYear) (replicate 6 0)) = Inr A
            \<and> length A = length aYear
            \<and> (\<forall>i < length aYear. length (A ! i) = 6)
            \<and> (\<forall>i < k. A ! i =
                  (if 0 \<le> fl_slack rnd (spec_clamp (fl_candidate rnd (aYear ! i) init der sec))
                   then fl_row rnd (fl_candidate rnd (aYear ! i) init der sec)
                   else if 0 < i then A ! (i - 1) else init))"
  using assms(4)
proof (induction k)
  case 0
  then show ?case by simp
next
  case (Suc k)
  then obtain A where A: "for_range [0..<k] (\<lambda>i A. percent_row_fl rnd A i (aYear ! i) init der sec)
                (replicate (length aYear) (replicate 6 0)) = Inr A"
     "length A = length aYear" "\<forall>i < length aYear. length (A ! i) = 6"
     "\<forall>i < k. A ! i =
                  (if 0 \<le> fl_slack rnd (spec_clamp (fl_candidate rnd (aYear ! i) init der sec))
                   then fl_row rnd (fl_candidate rnd (aYear ! i) init der sec)
                   else if 0 < i then A ! (i - 1) else init)"
    by auto
  define r where "r = (if 0 \<le> fl_slack rnd (spec_clamp (fl_candidate rnd (aYear ! k) init der sec))
                   then fl_row rnd (fl_candidate rnd (aYear ! k) init der sec)
                   else if 0 < k then A ! (k - 1) else init)"
  have k: "k < length A" using Suc.prems A(2) by simp
  have prev: "0 < k \<Longrightarrow> length (A ! (k - 1)) = 6" using A(3) k A(2) by simp
  have step: "percent_row_fl rnd A k (aYear ! k) init der sec = Inr (A[k := r])"
    using percent_row_fl_vec6 [OF assms(1-3) k prev] by (simp add: r_def)
  have run: "for_range [0..<Suc k] (\<lambda>i A. percent_row_fl rnd A i (aYear ! i) init der sec)
                (replicate (length aYear) (replicate 6 0)) = Inr (A[k := r])"
    unfolding for_range_upt_Suc A(1) by (simp add: step)
  have lenr: "length r = 6" using assms(1) prev by (simp add: r_def)
  have rows: "\<forall>i < length aYear. length (A[k := r] ! i) = 6"
    using A(2,3) lenr k by (auto simp add: nth_list_update)
  have rule: "A[k := r] ! i =
                  (if 0 \<le> fl_slack rnd (spec_clamp (fl_candidate rnd (aYear ! i) init der sec))
                   then fl_row rnd (fl_candidate rnd (aYear ! i) init der sec)
                   else if 0 < i then A[k := r] ! (i - 1) else init)" if "i < Suc k" for i
  proof (cases "i = k")
    case True
    then show ?thesis using k by (simp add: r_def)
  next
    case False
    with that have "i < k" by simp
    with A(4) show ?thesis by simp
  qed
  show ?case using run A(2) rows rule by auto
qed

lemma get_aPercentSources_fl_rows:
  assumes "length init = 6" "length der = 6" "length sec = 6"
  shows "\<exists>T. get_aPercentSources_fl rnd aYear init der sec = Inr T \<and> length T = length aYear \<and>
           (\<forall>i < length aYear. T ! i =
                  (if 0 \<le> fl_slack rnd (spec_clamp (fl_candidate rnd (aYear ! i) init der sec))
                   then fl_row rnd (fl_candidate rnd (aYear ! i) init der sec)
                   else if 0 < i then T ! (i - 1) else init))"
  using percent_loop_fl_prefix [OF assms, of "length aYear" aYear rnd]
  unfolding get_aPercentSources_fl_def by auto

text \<open>Every row is \<open>initial_percentages\<close> or an accepted row.\<close>

lemma fl_rows_cases:
  assumes "length T = n"
    and "\<And>i. i < n \<Longrightarrow> T ! i = (if ok i then acc i else if 0 < i then T ! (i - 1) else init)"
    and "P init" "\<And>i. i < n \<Longrightarrow> ok i \<Longrightarrow> P (acc i)" "i < n"
  shows "P (T ! i)"
  using assms(5)
proof (induction i)
  case 0
  with assms(2) [of 0] assms(3,4) show ?case by (cases "ok 0") simp_all
next
  case (Suc i)
  then have "P (T ! i)" by simp
  with assms(2) [of "Suc i"] assms(4) [of "Suc i"] Suc.prems show ?case
    by (cases "ok (Suc i)") simp_all
qed

section \<open>The rounding error of an accepted row\<close>

lemma slack_row_error:
  fixes rnd :: "real \<Rightarrow> real" and u \<eta> :: real
  assumes nn: "\<And>x. 0 \<le> x \<Longrightarrow> 0 \<le> rnd x"
    and err: "\<And>x. \<bar>rnd x - x\<bar> \<le> u * \<bar>x\<bar> + \<eta>"
    and u: "0 \<le> u" "u \<le> 1 / 2" and \<eta>: "0 \<le> \<eta>"
    and c: "0 \<le> c0" "0 \<le> c2" "0 \<le> c3" "0 \<le> c4" "0 \<le> c5"
    and g: "0 \<le> rnd (100 - rnd (rnd (rnd (rnd (c0 + c2) + c3) + c4) + c5))"
  shows "\<bar>c0 + rnd (100 - rnd (rnd (rnd (rnd (c0 + c2) + c3) + c4) + c5)) + c2 + c3 + c4 + c5 - 100\<bar>
           \<le> 3100 * u + 62 * \<eta>"
proof -
  define s1 where "s1 = rnd (c0 + c2)"
  define s2 where "s2 = rnd (s1 + c3)"
  define s3 where "s3 = rnd (s2 + c4)"
  define s4 where "s4 = rnd (s3 + c5)"
  define g' where "g' = rnd (100 - s4)"
  have s1: "0 \<le> s1" unfolding s1_def using c by (intro nn) simp
  have s2: "0 \<le> s2" unfolding s2_def using c s1 by (intro nn) simp
  have s3: "0 \<le> s3" unfolding s3_def using c s2 by (intro nn) simp
  have s4: "0 \<le> s4" unfolding s4_def using c s3 by (intro nn) simp
  have g0: "0 \<le> g'" using g by (simp add: g'_def s4_def s3_def s2_def s1_def)
  have half: "u * a \<le> a / 2" if "0 \<le> a" for a
    using mult_right_mono [OF u(2) that] by simp
  have up: "a \<le> 2 * (rnd a + \<eta>)" if "0 \<le> a" for a
  proof -
    have "\<bar>rnd a - a\<bar> \<le> u * a + \<eta>" using err [of a] that by simp
    then have "a - (u * a + \<eta>) \<le> rnd a" by (simp add: abs_le_iff)
    moreover have "u * a \<le> a / 2" using that by (rule half)
    ultimately have "a / 2 - \<eta> \<le> rnd a" by argo
    then show ?thesis by argo
  qed
  have top: "s4 \<le> 100 + 2 * \<eta>"
  proof (cases "s4 \<le> 100")
    case True
    then show ?thesis using \<eta> by simp
  next
    case False
    then have neg: "0 \<le> s4 - 100" by simp
    have "\<bar>g' - (100 - s4)\<bar> \<le> u * (s4 - 100) + \<eta>"
      using err [of "100 - s4"] False by (simp add: g'_def abs_if)
    then have "g' \<le> (100 - s4) + u * (s4 - 100) + \<eta>" by (simp add: abs_le_iff)
    moreover have "u * (s4 - 100) \<le> (s4 - 100) / 2" using neg by (rule half)
    ultimately have "g' \<le> (100 - s4) / 2 + \<eta>" by argo
    with g0 show ?thesis by argo
  qed
  have a5: "\<bar>100 - s4\<bar> \<le> 100 + 2 * \<eta>" using s4 top \<eta> by (simp add: abs_le_iff)
  have a4: "s3 + c5 \<le> 200 + 6 * \<eta>"
    using up [of "s3 + c5"] s3 c top by (simp add: s4_def [symmetric])
  have a3: "s2 + c4 \<le> 400 + 14 * \<eta>"
    using up [of "s2 + c4"] s2 c a4 by (simp add: s3_def [symmetric])
  have a2: "s1 + c3 \<le> 800 + 30 * \<eta>"
    using up [of "s1 + c3"] s1 c a3 by (simp add: s2_def [symmetric])
  have a1: "c0 + c2 \<le> 1600 + 62 * \<eta>"
    using up [of "c0 + c2"] c a2 by (simp add: s1_def [symmetric])
  have e1: "\<bar>s1 - (c0 + c2)\<bar> \<le> u * (c0 + c2) + \<eta>"
    using err [of "c0 + c2"] c by (simp add: s1_def)
  have e2: "\<bar>s2 - (s1 + c3)\<bar> \<le> u * (s1 + c3) + \<eta>"
    using err [of "s1 + c3"] c s1 by (simp add: s2_def)
  have e3: "\<bar>s3 - (s2 + c4)\<bar> \<le> u * (s2 + c4) + \<eta>"
    using err [of "s2 + c4"] c s2 by (simp add: s3_def)
  have e4: "\<bar>s4 - (s3 + c5)\<bar> \<le> u * (s3 + c5) + \<eta>"
    using err [of "s3 + c5"] c s3 by (simp add: s4_def)
  have e5: "\<bar>g' - (100 - s4)\<bar> \<le> u * \<bar>100 - s4\<bar> + \<eta>"
    using err [of "100 - s4"] by (simp add: g'_def)
  have m1: "u * (c0 + c2) \<le> u * (1600 + 62 * \<eta>)" using a1 u(1) by (rule mult_left_mono)
  have m2: "u * (s1 + c3) \<le> u * (800 + 30 * \<eta>)" using a2 u(1) by (rule mult_left_mono)
  have m3: "u * (s2 + c4) \<le> u * (400 + 14 * \<eta>)" using a3 u(1) by (rule mult_left_mono)
  have m4: "u * (s3 + c5) \<le> u * (200 + 6 * \<eta>)" using a4 u(1) by (rule mult_left_mono)
  have m5: "u * \<bar>100 - s4\<bar> \<le> u * (100 + 2 * \<eta>)" using a5 u(1) by (rule mult_left_mono)
  have ue: "u * \<eta> \<le> \<eta> / 2" using half [OF \<eta>] .
  have "\<bar>c0 + g' + c2 + c3 + c4 + c5 - 100\<bar>
          \<le> \<bar>s1 - (c0 + c2)\<bar> + \<bar>s2 - (s1 + c3)\<bar> + \<bar>s3 - (s2 + c4)\<bar> + \<bar>s4 - (s3 + c5)\<bar>
            + \<bar>g' - (100 - s4)\<bar>"
    by linarith
  also have "\<dots> \<le> u * (1600 + 62 * \<eta>) + u * (800 + 30 * \<eta>) + u * (400 + 14 * \<eta>)
                  + u * (200 + 6 * \<eta>) + u * (100 + 2 * \<eta>) + 5 * \<eta>"
    using e1 e2 e3 e4 e5 m1 m2 m3 m4 m5 by linarith
  also have "\<dots> = 3100 * u + 114 * (u * \<eta>) + 5 * \<eta>" by (simp add: algebra_simps)
  also have "\<dots> \<le> 3100 * u + 62 * \<eta>" using ue by linarith
  finally show ?thesis by (simp add: g'_def s4_def s3_def s2_def s1_def)
qed

lemma round_f64_error':
  "\<bar>round_f64 x - x\<bar> \<le> (1 / 2 ^ 53) * \<bar>x\<bar> + 1 / 2 ^ 1075"
  using round_f64_error [of x] by simp

lemma f64_tolerance: "3100 * (1 / 2 ^ 53) + 62 * (1 / 2 ^ 1075) \<le> (1 / 10 ^ 7 :: real)"
proof -
  have "(1 / 2 ^ 1075 :: real) \<le> 1 / 2 ^ 53"
    by (intro divide_left_mono power_increasing) simp_all
  then have "3100 * (1 / 2 ^ 53) + 62 * (1 / 2 ^ 1075) \<le> (3162 / 2 ^ 53 :: real)" by simp
  also have "\<dots> \<le> 1 / 10 ^ 7" by simp
  finally show ?thesis .
qed

lemma spec_clamp_nth:
  assumes "c < 6"
  shows "spec_clamp P ! c = (if c \<noteq> 1 then clip (P ! c) else P ! c)"
  using assms by (simp add: spec_clamp_def)

lemma fl_row_f64_mix:
  assumes "0 \<le> fl_slack round_f64 (spec_clamp P)"
  shows "length (fl_row round_f64 P) = 6 \<and> (\<forall>x \<in> set (fl_row round_f64 P). 0 \<le> x) \<and>
         \<bar>sum_list (fl_row round_f64 P) - 100\<bar> \<le> 1 / 10 ^ 7"
proof -
  obtain c0 c1 c2 c3 c4 c5 where C: "spec_clamp P = [c0, c1, c2, c3, c4, c5]"
    using length_spec_clamp by (rule length_6_cases)
  have "0 \<le> spec_clamp P ! 0" "0 \<le> spec_clamp P ! 2" "0 \<le> spec_clamp P ! 3"
    "0 \<le> spec_clamp P ! 4" "0 \<le> spec_clamp P ! 5"
    by (simp_all add: spec_clamp_nth clip_nonneg)
  then have nn: "0 \<le> c0" "0 \<le> c2" "0 \<le> c3" "0 \<le> c4" "0 \<le> c5"
    by (simp_all add: C)
  from assms have g: "0 \<le> round_f64 (100 - round_f64 (round_f64 (round_f64 (round_f64 (c0 + c2) + c3) + c4) + c5))"
    by (simp add: fl_slack_def C)
  have "\<bar>c0 + round_f64 (100 - round_f64 (round_f64 (round_f64 (round_f64 (c0 + c2) + c3) + c4) + c5))
          + c2 + c3 + c4 + c5 - 100\<bar> \<le> 3100 * (1 / 2 ^ 53) + 62 * (1 / 2 ^ 1075)"
    by (rule slack_row_error [OF round_f64_nonneg round_f64_error' _ _ _ nn g]) simp_all
  from this f64_tolerance
  have "\<bar>c0 + round_f64 (100 - round_f64 (round_f64 (round_f64 (round_f64 (c0 + c2) + c3) + c4) + c5))
          + c2 + c3 + c4 + c5 - 100\<bar> \<le> 1 / 10 ^ 7"
    by (rule order_trans)
  moreover have "sum_list (fl_row round_f64 P) =
      c0 + round_f64 (100 - round_f64 (round_f64 (round_f64 (round_f64 (c0 + c2) + c3) + c4) + c5))
          + c2 + c3 + c4 + c5"
    by (simp add: fl_row_def fl_slack_def C)
  moreover have "\<forall>x \<in> set (fl_row round_f64 P). 0 \<le> x"
    using nn g by (simp add: fl_row_def fl_slack_def C)
  ultimately show ?thesis by simp
qed

section \<open>The trajectory invariant\<close>

text \<open>
  Claim C1, as amended. When \<open>initial_percentages\<close> is a six-element vector of nonnegative
  values that sum to 100 within the relative tolerance 1e-9 (and the two trend vectors
  have six elements), \<^verbatim>\<open>get_aPercentSources\<close>, computing in doubles, returns one row
  per time sample, and every row has six nonnegative entries whose sum differs from 100 by
  at most 1e-7, that is by at most 1e-9 relative, on every time grid. The sum is in
  general not exactly 100: the slack is a rounded difference of a rounded sum.
\<close>

theorem get_aPercentSources_rows_within_tolerance:
  assumes "length init = 6" "\<forall>x \<in> set init. 0 \<le> x" "\<bar>sum_list init - 100\<bar> \<le> 1 / 10 ^ 7"
    and "length der = 6" "length sec = 6"
  shows "\<exists>T. get_aPercentSources_fl round_f64 aYear init der sec = Inr T \<and>
              length T = length aYear \<and>
              (\<forall>row \<in> set T. length row = 6 \<and> (\<forall>x \<in> set row. 0 \<le> x) \<and>
                 \<bar>sum_list row - 100\<bar> \<le> 1 / 10 ^ 7)"
proof -
  obtain T where T: "get_aPercentSources_fl round_f64 aYear init der sec = Inr T"
    "length T = length aYear"
    "\<forall>i < length aYear. T ! i =
       (if 0 \<le> fl_slack round_f64 (spec_clamp (fl_candidate round_f64 (aYear ! i) init der sec))
        then fl_row round_f64 (fl_candidate round_f64 (aYear ! i) init der sec)
        else if 0 < i then T ! (i - 1) else init)"
    using get_aPercentSources_fl_rows [OF assms(1,4,5), of round_f64 aYear] by blast
  let ?P = "\<lambda>row. length row = 6 \<and> (\<forall>x \<in> set row. 0 \<le> x) \<and> \<bar>sum_list row - 100\<bar> \<le> 1 / 10 ^ 7"
  have rule: "\<And>i. i < length aYear \<Longrightarrow> T ! i =
       (if 0 \<le> fl_slack round_f64 (spec_clamp (fl_candidate round_f64 (aYear ! i) init der sec))
        then fl_row round_f64 (fl_candidate round_f64 (aYear ! i) init der sec)
        else if 0 < i then T ! (i - 1) else init)"
    using T(3) by blast
  have init: "?P init" using assms(1-3) by simp
  have acc: "?P (fl_row round_f64 (fl_candidate round_f64 (aYear ! i) init der sec))"
    if "0 \<le> fl_slack round_f64 (spec_clamp (fl_candidate round_f64 (aYear ! i) init der sec))" for i
    using that by (rule fl_row_f64_mix)
  have "?P row" if "row \<in> set T" for row
  proof -
    from that obtain i where i: "i < length T" "row = T ! i" by (auto simp: in_set_conv_nth)
    then have "i < length aYear" using T(2) by simp
    from fl_rows_cases [where P = ?P, OF T(2) rule init acc this] i(2) show ?thesis by simp
  qed
  with T(1,2) show ?thesis by blast
qed

lemma initial_percentages_f64:
  "map round_f64 initial_percentages =
     [5432467050515661 / 2 ^ 48, 7543529375845581 / 2 ^ 47, 8106479329266893 / 2 ^ 53, 35 / 2,
      2448832297382707 / 2 ^ 48, 0]"
  by (simp add: initial_percentages_def rnd_eval)

lemma initial_percentages_f64_fixed:
  "map round_f64 [5432467050515661 / 2 ^ 48, 7543529375845581 / 2 ^ 47, 8106479329266893 / 2 ^ 53,
      35 / 2, 2448832297382707 / 2 ^ 48, 0] =
     [5432467050515661 / 2 ^ 48, 7543529375845581 / 2 ^ 47, 8106479329266893 / 2 ^ 53, 35 / 2,
      2448832297382707 / 2 ^ 48, 0]"
  by (simp add: rnd_eval)

lemma initial_percentages_f64_slack:
  "fl_slack round_f64 [5432467050515661 / 2 ^ 48, 7543529375845581 / 2 ^ 47,
      8106479329266893 / 2 ^ 53, 35 / 2, 2448832297382707 / 2 ^ 48, 0] = 1885882343961395 / 2 ^ 45"
  by (simp add: fl_slack_def rnd_eval)

theorem get_aPercentSources_rows_within_tolerance_witness:
  "\<exists>T. get_aPercentSources_fl round_f64 [2021, 2030] (map round_f64 initial_percentages)
          (map round_f64 derivative_sources) (replicate 6 0) = Inr T
     \<and> length T = 2 \<and> \<bar>sum_list (T ! 0) - 100\<bar> \<le> 1 / 10 ^ 7 \<and> \<bar>sum_list (T ! 1) - 100\<bar> \<le> 1 / 10 ^ 7
     \<and> 0 \<le> T ! 1 ! 1"
proof -
  let ?i = "map round_f64 initial_percentages"
  let ?d = "map round_f64 derivative_sources"
  have h1: "length ?i = 6" by (simp add: initial_percentages_def)
  have h2: "\<forall>x \<in> set ?i. 0 \<le> x" unfolding initial_percentages_f64 by simp
  have h3: "\<bar>sum_list ?i - 100\<bar> \<le> 1 / 10 ^ 7" unfolding initial_percentages_f64 by simp
  have h4: "length ?d = 6" "length (replicate 6 (0::real)) = 6"
    by (simp_all add: derivative_sources_def)
  from get_aPercentSources_rows_within_tolerance [OF h1 h2 h3 h4, of "[2021, 2030]"]
  obtain T where T: "get_aPercentSources_fl round_f64 [2021, 2030] ?i ?d (replicate 6 0) = Inr T"
    "length T = length [2021, 2030 :: real]"
    "\<forall>row \<in> set T. length row = 6 \<and> (\<forall>x \<in> set row. 0 \<le> x) \<and> \<bar>sum_list row - 100\<bar> \<le> 1 / 10 ^ 7"
    by blast
  have "T ! 0 \<in> set T" "T ! 1 \<in> set T" using T(2) by simp_all
  with T(3) have r: "\<bar>sum_list (T ! 0) - 100\<bar> \<le> 1 / 10 ^ 7" "\<bar>sum_list (T ! 1) - 100\<bar> \<le> 1 / 10 ^ 7"
    "length (T ! 1) = 6" "\<forall>x \<in> set (T ! 1). 0 \<le> x" by blast+
  have "T ! 1 ! 1 \<in> set (T ! 1)" using r(3) by simp
  with r(4) have "0 \<le> T ! 1 ! 1" by blast
  with T(1,2) r(1,2) show ?thesis by simp
qed

section \<open>Zero trends\<close>

lemma fl_candidate_zero:
  assumes "rnd 0 = 0" "length init = 6" "\<forall>x \<in> set init. rnd x = x"
  shows "fl_candidate rnd t init (replicate 6 0) (replicate 6 0) = init"
proof -
  obtain a0 a1 a2 a3 a4 a5 where i: "init = [a0, a1, a2, a3, a4, a5]"
    using assms(2) by (rule length_6_cases)
  show ?thesis
    unfolding i replicate_6 fl_candidate_list_6 using assms(1,3) by (simp add: i)
qed

lemma spec_clamp_id:
  assumes "length P = 6" "0 \<le> P ! 0" "0 \<le> P ! 2" "0 \<le> P ! 3" "0 \<le> P ! 4" "0 \<le> P ! 5"
  shows "spec_clamp P = P"
proof -
  obtain a0 a1 a2 a3 a4 a5 where i: "P = [a0, a1, a2, a3, a4, a5]"
    using assms(1) by (rule length_6_cases)
  show ?thesis using assms(2-6) unfolding i spec_clamp_6 by (simp add: clip_id)
qed

lemma zero_trend_rows_fl:
  assumes "rnd 0 = 0" "length init = 6" "\<forall>x \<in> set init. rnd x = x"
    and "0 \<le> init ! 0" "0 \<le> init ! 2" "0 \<le> init ! 3" "0 \<le> init ! 4" "0 \<le> init ! 5"
  shows "\<exists>T. get_aPercentSources_fl rnd aYear init (replicate 6 0) (replicate 6 0) = Inr T \<and>
           length T = length aYear \<and>
           (\<forall>i < length aYear. T ! i =
              (if 0 \<le> fl_slack rnd init then init[1 := fl_slack rnd init] else init))"
proof -
  have z: "length (replicate 6 (0::real)) = 6" by simp
  obtain T where T: "get_aPercentSources_fl rnd aYear init (replicate 6 0) (replicate 6 0) = Inr T"
    "length T = length aYear"
    "\<forall>i < length aYear. T ! i =
       (if 0 \<le> fl_slack rnd (spec_clamp (fl_candidate rnd (aYear ! i) init (replicate 6 0) (replicate 6 0)))
        then fl_row rnd (fl_candidate rnd (aYear ! i) init (replicate 6 0) (replicate 6 0))
        else if 0 < i then T ! (i - 1) else init)"
    using get_aPercentSources_fl_rows [OF assms(2) z z, of rnd aYear] by blast
  have c: "fl_candidate rnd t init (replicate 6 0) (replicate 6 0) = init" for t
    using assms(1-3) by (rule fl_candidate_zero)
  have cl: "spec_clamp init = init" using assms(2,4-8) by (rule spec_clamp_id)
  have rule: "T ! i = (if 0 \<le> fl_slack rnd init then init[1 := fl_slack rnd init]
                       else if 0 < i then T ! (i - 1) else init)" if "i < length aYear" for i
    using T(3) that by (simp add: c cl fl_row_def)
  have "T ! i = (if 0 \<le> fl_slack rnd init then init[1 := fl_slack rnd init] else init)"
    if "i < length aYear" for i
    using that
  proof (induction i)
    case 0
    then show ?case using rule [of 0] by simp
  next
    case (Suc i)
    then have "T ! i = (if 0 \<le> fl_slack rnd init then init[1 := fl_slack rnd init] else init)"
      by simp
    with rule [OF Suc.prems] show ?case by simp
  qed
  with T(1,2) show ?thesis by blast
qed

theorem get_aPercentSources_rows_within_tolerance_counterexample:
  "get_aPercentSources_fl round_f64 [2021]
       [30 + 1 / 2 ^ 47, 29 - 3 / 2 ^ 47, 40, 0, 0, 1 + 1 / 2 ^ 46] (replicate 6 0) (replicate 6 0)
     = Inr [[30 + 1 / 2 ^ 47, 29 - 1 / 2 ^ 46, 40, 0, 0, 1 + 1 / 2 ^ 46]]
   \<and> map round_f64 [30 + 1 / 2 ^ 47, 29 - 3 / 2 ^ 47, 40, 0, 0, 1 + 1 / 2 ^ 46]
       = [30 + 1 / 2 ^ 47, 29 - 3 / 2 ^ 47, 40, 0, 0, 1 + 1 / 2 ^ 46]
   \<and> sum_list [30 + 1 / 2 ^ 47, 29 - 3 / 2 ^ 47, 40, 0, 0, 1 + 1 / 2 ^ 46] = (100 :: real)
   \<and> foldl (\<lambda>a x. round_f64 (a + x)) 0 [30 + 1 / 2 ^ 47, 29 - 3 / 2 ^ 47, 40, 0, 0, 1 + 1 / 2 ^ 46] = 100
   \<and> sum_list [30 + 1 / 2 ^ 47, 29 - 1 / 2 ^ 46, 40, 0, 0, 1 + 1 / 2 ^ 46] = (100 + 1 / 2 ^ 47 :: real)
   \<and> foldl (\<lambda>a x. round_f64 (a + x)) 0 [30 + 1 / 2 ^ 47, 29 - 1 / 2 ^ 46, 40, 0, 0, 1 + 1 / 2 ^ 46]
       = 100 + 1 / 2 ^ 46
   \<and> sum_list [30 + 1 / 2 ^ 47, 29 - 1 / 2 ^ 46, 40, 0, 0, 1 + 1 / 2 ^ 46] \<noteq> (100 :: real)"
proof -
  let ?i = "[30 + 1 / 2 ^ 47, 29 - 3 / 2 ^ 47, 40, 0, 0, 1 + 1 / 2 ^ 46] :: real list"
  have rep: "map round_f64 ?i = ?i" by (simp add: rnd_eval)
  then have fx: "\<forall>x \<in> set ?i. round_f64 x = x" by simp
  have slack: "fl_slack round_f64 ?i = 29 - 1 / 2 ^ 46" by (simp add: fl_slack_def rnd_eval)
  have h: "round_f64 0 = 0" "length ?i = 6" "0 \<le> ?i ! 0" "0 \<le> ?i ! 2" "0 \<le> ?i ! 3" "0 \<le> ?i ! 4"
    "0 \<le> ?i ! 5" by simp_all
  from zero_trend_rows_fl [OF h(1,2) fx h(3-7), of "[2021]"]
  obtain T where T: "get_aPercentSources_fl round_f64 [2021] ?i (replicate 6 0) (replicate 6 0) = Inr T"
    "length T = 1" "T ! 0 = (if 0 \<le> fl_slack round_f64 ?i then ?i[1 := fl_slack round_f64 ?i] else ?i)"
    by auto
  from T(3) have "T ! 0 = [30 + 1 / 2 ^ 47, 29 - 1 / 2 ^ 46, 40, 0, 0, 1 + 1 / 2 ^ 46]"
    unfolding slack by simp
  with T(2) have "T = [[30 + 1 / 2 ^ 47, 29 - 1 / 2 ^ 46, 40, 0, 0, 1 + 1 / 2 ^ 46]]"
    by (cases T) simp_all
  with T(1) have run: "get_aPercentSources_fl round_f64 [2021] ?i (replicate 6 0) (replicate 6 0)
     = Inr [[30 + 1 / 2 ^ 47, 29 - 1 / 2 ^ 46, 40, 0, 0, 1 + 1 / 2 ^ 46]]" by simp
  have s1: "sum_list ?i = 100" by simp
  have s2: "foldl (\<lambda>a x. round_f64 (a + x)) 0 ?i = 100" by (simp add: rnd_eval)
  have s3: "sum_list [30 + 1 / 2 ^ 47, 29 - 1 / 2 ^ 46, 40, 0, 0, 1 + 1 / 2 ^ 46] = (100 + 1 / 2 ^ 47 :: real)"
    by simp
  have s4: "foldl (\<lambda>a x. round_f64 (a + x)) 0 [30 + 1 / 2 ^ 47, 29 - 1 / 2 ^ 46, 40, 0, 0, 1 + 1 / 2 ^ 46]
       = 100 + 1 / 2 ^ 46" by (simp add: rnd_eval)
  have s5: "sum_list [30 + 1 / 2 ^ 47, 29 - 1 / 2 ^ 46, 40, 0, 0, 1 + 1 / 2 ^ 46] \<noteq> (100 :: real)"
    by simp
  from run rep s1 s2 s3 s4 s5 show ?thesis by blast
qed

lemma sum_list_update_1:
  fixes P :: "real list"
  assumes "length P = 6"
  shows "sum_list (P[1 := s]) = sum_list P - P ! 1 + s"
proof -
  obtain a0 a1 a2 a3 a4 a5 where i: "P = [a0, a1, a2, a3, a4, a5]"
    using assms by (rule length_6_cases)
  show ?thesis by (simp add: i)
qed

text \<open>
  Claim C5, as amended. When both trend vectors are all zero and \<open>initial_percentages\<close>
  is a six-element vector of doubles whose channels 0, 2, 3, 4, 5 are nonnegative, every
  row of the trajectory computed in doubles is the same on every time grid: it is
  \<open>initial_percentages\<close> with channel 1 replaced by the computed slack, 100 minus the sum
  of the other five channels, when that slack is nonnegative, and \<open>initial_percentages\<close>
  itself when it is negative. When \<open>initial_percentages\<close> sums to 100 within the relative
  tolerance 1e-9, channel 1 of every row is within 2e-7 of \<open>initial_percentages[1]\<close>; it
  need not be equal to it.
\<close>

theorem get_aPercentSources_zero_trend_f64:
  assumes "length init = 6" "\<forall>x \<in> set init. round_f64 x = x"
    and "0 \<le> init ! 0" "0 \<le> init ! 2" "0 \<le> init ! 3" "0 \<le> init ! 4" "0 \<le> init ! 5"
  shows "\<exists>T. get_aPercentSources_fl round_f64 aYear init (replicate 6 0) (replicate 6 0) = Inr T \<and>
           length T = length aYear \<and>
           (\<forall>row \<in> set T.
              row = (if 0 \<le> fl_slack round_f64 init then init[1 := fl_slack round_f64 init] else init)
              \<and> (\<bar>sum_list init - 100\<bar> \<le> 1 / 10 ^ 7 \<longrightarrow> \<bar>row ! 1 - init ! 1\<bar> \<le> 2 / 10 ^ 7))"
proof -
  obtain T where T: "get_aPercentSources_fl round_f64 aYear init (replicate 6 0) (replicate 6 0) = Inr T"
    "length T = length aYear"
    "\<forall>i < length aYear. T ! i =
       (if 0 \<le> fl_slack round_f64 init then init[1 := fl_slack round_f64 init] else init)"
    using zero_trend_rows_fl [OF round_f64_0 assms, of aYear] by blast
  define R where "R = (if 0 \<le> fl_slack round_f64 init then init[1 := fl_slack round_f64 init] else init)"
  have cl: "spec_clamp init = init" using assms(1,3-7) by (rule spec_clamp_id)
  have close: "\<bar>R ! 1 - init ! 1\<bar> \<le> 2 / 10 ^ 7" if s: "\<bar>sum_list init - 100\<bar> \<le> 1 / 10 ^ 7"
  proof (cases "0 \<le> fl_slack round_f64 init")
    case True
    then have "0 \<le> fl_slack round_f64 (spec_clamp init)" by (simp add: cl)
    from fl_row_f64_mix [OF this]
    have "\<bar>sum_list (init[1 := fl_slack round_f64 init]) - 100\<bar> \<le> 1 / 10 ^ 7"
      by (simp add: fl_row_def cl)
    then have "\<bar>sum_list init - init ! 1 + fl_slack round_f64 init - 100\<bar> \<le> 1 / 10 ^ 7"
      unfolding sum_list_update_1 [OF assms(1)] .
    with s have "\<bar>fl_slack round_f64 init - init ! 1\<bar> \<le> 2 / 10 ^ 7" by linarith
    then show ?thesis using True assms(1) by (simp add: R_def)
  next
    case False
    then show ?thesis by (simp add: R_def)
  qed
  have "row = R" if "row \<in> set T" for row
  proof -
    from that obtain i where "i < length T" "row = T ! i" by (auto simp: in_set_conv_nth)
    with T(2,3) show ?thesis by (simp add: R_def)
  qed
  with close T(1,2) show ?thesis unfolding R_def by blast
qed

theorem get_aPercentSources_zero_trend_f64_witness:
  "\<exists>T. get_aPercentSources_fl round_f64 [2021, 2025, 2030] (map round_f64 initial_percentages)
          (replicate 6 0) (replicate 6 0) = Inr T
     \<and> length T = 3
     \<and> T ! 2 = [5432467050515661 / 2 ^ 48, 1885882343961395 / 2 ^ 45, 8106479329266893 / 2 ^ 53, 35 / 2,
                2448832297382707 / 2 ^ 48, 0]
     \<and> \<bar>T ! 2 ! 1 - map round_f64 initial_percentages ! 1\<bar> \<le> 2 / 10 ^ 7"
proof -
  let ?i = "[5432467050515661 / 2 ^ 48, 7543529375845581 / 2 ^ 47, 8106479329266893 / 2 ^ 53,
      35 / 2, 2448832297382707 / 2 ^ 48, 0] :: real list"
  have fx: "\<forall>x \<in> set ?i. round_f64 x = x"
    using initial_percentages_f64_fixed by simp
  have h: "length ?i = 6" "0 \<le> ?i ! 0" "0 \<le> ?i ! 2" "0 \<le> ?i ! 3" "0 \<le> ?i ! 4" "0 \<le> ?i ! 5"
    by simp_all
  have s: "\<bar>sum_list ?i - 100\<bar> \<le> 1 / 10 ^ 7" by simp
  from get_aPercentSources_zero_trend_f64 [OF h(1) fx h(2-6), of "[2021, 2025, 2030]"]
  obtain T where T: "get_aPercentSources_fl round_f64 [2021, 2025, 2030] ?i (replicate 6 0) (replicate 6 0) = Inr T"
    "length T = length [2021, 2025, 2030 :: real]"
    "\<forall>row \<in> set T.
        row = (if 0 \<le> fl_slack round_f64 ?i then ?i[1 := fl_slack round_f64 ?i] else ?i)
        \<and> (\<bar>sum_list ?i - 100\<bar> \<le> 1 / 10 ^ 7 \<longrightarrow> \<bar>row ! 1 - ?i ! 1\<bar> \<le> 2 / 10 ^ 7)"
    by blast
  have "T ! 2 \<in> set T" using T(2) by simp
  with T(3) s have r: "T ! 2 = (if 0 \<le> fl_slack round_f64 ?i then ?i[1 := fl_slack round_f64 ?i] else ?i)"
    "\<bar>T ! 2 ! 1 - ?i ! 1\<bar> \<le> 2 / 10 ^ 7" by blast+
  from r(1) have "T ! 2 = [5432467050515661 / 2 ^ 48, 1885882343961395 / 2 ^ 45,
      8106479329266893 / 2 ^ 53, 35 / 2, 2448832297382707 / 2 ^ 48, 0]"
    unfolding initial_percentages_f64_slack by simp
  with T(1,2) r(2) show ?thesis
    unfolding initial_percentages_f64 by simp
qed

theorem get_aPercentSources_zero_trend_f64_counterexample:
  "get_aPercentSources_fl round_f64 [2021] (map round_f64 initial_percentages)
       (replicate 6 0) (replicate 6 0)
     = Inr [[5432467050515661 / 2 ^ 48, 1885882343961395 / 2 ^ 45, 8106479329266893 / 2 ^ 53, 35 / 2,
             2448832297382707 / 2 ^ 48, 0]]
   \<and> map round_f64 initial_percentages =
       [5432467050515661 / 2 ^ 48, 7543529375845581 / 2 ^ 47, 8106479329266893 / 2 ^ 53, 35 / 2,
        2448832297382707 / 2 ^ 48, 0]
   \<and> (1885882343961395 / 2 ^ 45 :: real) \<noteq> 7543529375845581 / 2 ^ 47
   \<and> get_aPercentSources_fl round_f64 [2021] [10, 10, 10, 10, 10, 10] (replicate 6 0) (replicate 6 0)
       = Inr [[10, 50, 10, 10, 10, 10]]"
proof -
  let ?i = "[5432467050515661 / 2 ^ 48, 7543529375845581 / 2 ^ 47, 8106479329266893 / 2 ^ 53,
      35 / 2, 2448832297382707 / 2 ^ 48, 0] :: real list"
  have fx: "\<forall>x \<in> set ?i. round_f64 x = x"
    using initial_percentages_f64_fixed by simp
  have h: "round_f64 0 = 0" "length ?i = 6" "0 \<le> ?i ! 0" "0 \<le> ?i ! 2" "0 \<le> ?i ! 3" "0 \<le> ?i ! 4"
    "0 \<le> ?i ! 5" by simp_all
  from zero_trend_rows_fl [OF h(1,2) fx h(3-7), of "[2021]"]
  obtain T where T: "get_aPercentSources_fl round_f64 [2021] ?i (replicate 6 0) (replicate 6 0) = Inr T"
    "length T = 1" "T ! 0 = (if 0 \<le> fl_slack round_f64 ?i then ?i[1 := fl_slack round_f64 ?i] else ?i)"
    by auto
  from T(3) have "T ! 0 = [5432467050515661 / 2 ^ 48, 1885882343961395 / 2 ^ 45,
      8106479329266893 / 2 ^ 53, 35 / 2, 2448832297382707 / 2 ^ 48, 0]"
    unfolding initial_percentages_f64_slack by simp
  with T(2) have "T = [[5432467050515661 / 2 ^ 48, 1885882343961395 / 2 ^ 45,
      8106479329266893 / 2 ^ 53, 35 / 2, 2448832297382707 / 2 ^ 48, 0]]"
    by (cases T) simp_all
  with T(1) have a: "get_aPercentSources_fl round_f64 [2021] (map round_f64 initial_percentages)
       (replicate 6 0) (replicate 6 0)
     = Inr [[5432467050515661 / 2 ^ 48, 1885882343961395 / 2 ^ 45, 8106479329266893 / 2 ^ 53, 35 / 2,
             2448832297382707 / 2 ^ 48, 0]]"
    unfolding initial_percentages_f64 by simp
  let ?j = "[10, 10, 10, 10, 10, 10] :: real list"
  have fj: "\<forall>x \<in> set ?j. round_f64 x = x" by (simp add: rnd_eval)
  have sj: "fl_slack round_f64 ?j = 50" by (simp add: fl_slack_def rnd_eval)
  have hj: "length ?j = 6" "0 \<le> ?j ! 0" "0 \<le> ?j ! 2" "0 \<le> ?j ! 3" "0 \<le> ?j ! 4" "0 \<le> ?j ! 5"
    by simp_all
  from zero_trend_rows_fl [OF h(1) hj(1) fj hj(2-6), of "[2021]"]
  obtain U where U: "get_aPercentSources_fl round_f64 [2021] ?j (replicate 6 0) (replicate 6 0) = Inr U"
    "length U = 1" "U ! 0 = (if 0 \<le> fl_slack round_f64 ?j then ?j[1 := fl_slack round_f64 ?j] else ?j)"
    by auto
  from U(3) have "U ! 0 = [10, 50, 10, 10, 10, 10]" unfolding sj by simp
  with U(2) have "U = [[10, 50, 10, 10, 10, 10]]" by (cases U) simp_all
  with U(1) have b: "get_aPercentSources_fl round_f64 [2021] ?j (replicate 6 0) (replicate 6 0)
       = Inr [[10, 50, 10, 10, 10, 10]]" by simp
  have c: "(1885882343961395 / 2 ^ 45 :: real) \<noteq> 7543529375845581 / 2 ^ 47" by simp
  from a initial_percentages_f64 b c show ?thesis by blast
qed

end
